theory Spec2Isabelle
  imports Complex_Main
begin

section \<open>Open Interface: the action dispatchers and the control loop\<close>

text \<open>
  The development embeds two call surfaces of the repository: the interpreter of
  \<^verbatim>\<open>app/interpreter.py\<close> (\<^verbatim>\<open>Interpreter.process_commands\<close>, \<^verbatim>\<open>process_command\<close>,
  \<^verbatim>\<open>execute_function\<close>) and the LangGraph surface of \<^verbatim>\<open>langgraph_interface/\<close>
  (\<^verbatim>\<open>tools.py\<close>, \<^verbatim>\<open>nodes.py\<close>, \<^verbatim>\<open>graph.py\<close>, \<^verbatim>\<open>state.py\<close>).

  Everything outside the repository is a parameter, collected in the record \<open>env\<close>: the
  input device behind \<^verbatim>\<open>pyautogui\<close> and \<^verbatim>\<open>time.sleep\<close> (which calls raise), the
  attribute table of the \<^verbatim>\<open>pyautogui\<close> module, the argument validation of the tool
  library, Python's formatting of values that are not strings and the planner model.
  Every call to the device is appended to a trace, so that "which primitive was invoked,
  with which arguments, in which order" is a statement about a list; the arguments of
  every planning call are kept in the same way.
\<close>

subsection \<open>JSON values and Python's dictionary and string operations\<close>

datatype pyval =
    VNone
  | VBool bool
  | VInt int
  | VFloat rat
  | VStr string
  | VList "pyval list"
  | VDict "(string \<times> pyval) list"

type_synonym params = "(string \<times> pyval) list"

text \<open>Python's truth value of an object, as \<^verbatim>\<open>or\<close>, \<^verbatim>\<open>not\<close> and \<^verbatim>\<open>if\<close> read it.\<close>

fun truthy :: "pyval \<Rightarrow> bool" where
  "truthy VNone = False"
| "truthy (VBool b) = b"
| "truthy (VInt i) = (i \<noteq> 0)"
| "truthy (VFloat r) = (r \<noteq> 0)"
| "truthy (VStr s) = (s \<noteq> [])"
| "truthy (VList xs) = (xs \<noteq> [])"
| "truthy (VDict kvs) = (kvs \<noteq> [])"

text \<open>\<^verbatim>\<open>a or b\<close>: the first operand when it is true, the second otherwise.\<close>

definition py_or :: "pyval \<Rightarrow> pyval \<Rightarrow> pyval" where
  "py_or a b = (if truthy a then a else b)"

text \<open>\<^verbatim>\<open>k in d\<close>, \<^verbatim>\<open>d.get(k)\<close>, \<^verbatim>\<open>d.get(k, default)\<close> and \<^verbatim>\<open>list(d.values())\<close>
  on a dictionary kept as an association list in insertion order.\<close>

definition has_key :: "params \<Rightarrow> string \<Rightarrow> bool" where
  "has_key d k = (map_of d k \<noteq> None)"

definition get :: "params \<Rightarrow> string \<Rightarrow> pyval" where
  "get d k = (case map_of d k of None \<Rightarrow> VNone | Some v \<Rightarrow> v)"

definition get_default :: "params \<Rightarrow> string \<Rightarrow> pyval \<Rightarrow> pyval" where
  "get_default d k dflt = (case map_of d k of None \<Rightarrow> dflt | Some v \<Rightarrow> v)"

definition dict_values :: "params \<Rightarrow> pyval list" where
  "dict_values d = map snd d"

fun is_list :: "pyval \<Rightarrow> bool" where
  "is_list (VList xs) = True"
| "is_list v = False"

fun list_items :: "pyval \<Rightarrow> pyval list" where
  "list_items (VList xs) = xs"
| "list_items v = []"

text \<open>\<^verbatim>\<open>s.startswith(p)\<close>, \<^verbatim>\<open>s.replace(old, "")\<close> (every occurrence, left to right, goes),
  \<^verbatim>\<open>s.lower()\<close> on ASCII letters and \<^verbatim>\<open>sub in s\<close>.\<close>

definition startswith :: "string \<Rightarrow> string \<Rightarrow> bool" where
  "startswith s p = (take (length p) s = p)"

fun remove_all :: "string \<Rightarrow> string \<Rightarrow> string" where
  "remove_all old [] = []"
| "remove_all old (c # cs) =
     (if old \<noteq> [] \<and> take (length old) (c # cs) = old
      then remove_all old (drop (length old) (c # cs))
      else c # remove_all old cs)"

definition lower_char :: "char \<Rightarrow> char" where
  "lower_char c =
     (case map_of (zip ''ABCDEFGHIJKLMNOPQRSTUVWXYZ'' ''abcdefghijklmnopqrstuvwxyz'') c of
        None \<Rightarrow> c
      | Some d \<Rightarrow> d)"

definition lower :: "string \<Rightarrow> string" where
  "lower s = map lower_char s"

fun contains :: "string \<Rightarrow> string \<Rightarrow> bool" where
  "contains [] sub = (sub = [])"
| "contains (c # cs) sub = (take (length sub) (c # cs) = sub \<or> contains cs sub)"

subsection \<open>The device, the environment and the observable effects\<close>

text \<open>
  A primitive call is kept as the source writes it: the name of the \<^verbatim>\<open>pyautogui\<close>
  function, its positional arguments and its keyword arguments. \<^verbatim>\<open>time.sleep\<close> and the
  screen capture of \<^verbatim>\<open>utils.screen\<close> are primitives of their own.
\<close>

datatype prim =
    PyAutoGUI string "pyval list" "(string \<times> pyval) list"
  | TimeSleep pyval
  | Capture

text \<open>An exception: the name of its class and the text \<^verbatim>\<open>str(e)\<close> gives.\<close>

datatype exn = Exn string string

fun exn_str :: "exn \<Rightarrow> string" where
  "exn_str (Exn cls msg) = msg"

text \<open>A descriptor on the wire: \<^verbatim>\<open>function\<close>, \<^verbatim>\<open>parameters\<close> and
  \<^verbatim>\<open>human_readable_justification\<close>, each of which may be absent.\<close>

record command =
  fn :: "string option"
  parameters :: "params option"
  human_readable_justification :: "string option"

text \<open>\<^verbatim>\<open>d.get('function', "")\<close>, \<^verbatim>\<open>d.get('parameters', {})\<close> and
  \<^verbatim>\<open>d.get('human_readable_justification', "")\<close> on a descriptor.\<close>

definition name_of :: "command \<Rightarrow> string" where
  "name_of c = (case fn c of None \<Rightarrow> [] | Some f \<Rightarrow> f)"

definition params_of :: "command \<Rightarrow> params" where
  "params_of c = (case parameters c of None \<Rightarrow> [] | Some d \<Rightarrow> d)"

definition justification_of :: "command \<Rightarrow> string" where
  "justification_of c = (case human_readable_justification c of None \<Rightarrow> [] | Some j \<Rightarrow> j)"

text \<open>The lines the interpreter prints, one constructor per \<^verbatim>\<open>print\<close> statement,
  carrying the values the statement interpolates.\<close>

datatype log =
    NowPerforming string params "string option"
  | ProblemExecuting exn
  | JsonReceived command
  | WhatWeExtracted
  | ExtractedFunctionName string
  | ExtractedParameters params
  | Clicking pyval pyval pyval
  | InvalidClickParameters params
  | NoSuchFunction string

text \<open>A planner answer: the \<^verbatim>\<open>steps\<close> list (absent and empty are both false for the
  loop) and the \<^verbatim>\<open>done\<close> message.\<close>

record instructions =
  steps :: "command list"
  done_msg :: "string option"

text \<open>
  The environment. \<open>raises\<close> says whether a primitive call raises, given the calls made
  before it; \<open>capture_len\<close> is the length of the data a successful capture returns;
  \<open>hasattr\<close> is \<^verbatim>\<open>hasattr(pyautogui, name)\<close>; \<open>coerce\<close> is the tool library's conversion
  of one argument to its annotated type (\<open>None\<close>: a validation error, whose text is
  \<open>coerce_msg\<close>); \<open>hotkey_args\<close> is how the library turns a parameter dictionary into the
  positional arguments of \<^verbatim>\<open>hotkey(*keys)\<close>; \<open>fmt\<close> is \<^verbatim>\<open>str(v)\<close> for a value that is not
  already a string; \<open>join_msg\<close> is the text of the \<^verbatim>\<open>TypeError\<close> of \<^verbatim>\<open>'+'.join\<close>;
  \<open>planner\<close> is \<^verbatim>\<open>model.get_instructions_for_objective\<close>, given the number of earlier
  planning calls, the request and the step count (the only arguments the call has);
  \<open>settings_dict\<close> is \<^verbatim>\<open>Settings().get_dict()\<close>.
\<close>

record env =
  raises :: "prim list \<Rightarrow> prim \<Rightarrow> exn option"
  capture_len :: "prim list \<Rightarrow> nat"
  hasattr :: "string \<Rightarrow> bool"
  coerce :: "string \<Rightarrow> pyval \<Rightarrow> pyval option"
  coerce_msg :: "string \<Rightarrow> params \<Rightarrow> string"
  hotkey_args :: "params \<Rightarrow> exn + pyval list"
  fmt :: "pyval \<Rightarrow> string"
  join_msg :: "pyval list \<Rightarrow> string"
  planner :: "nat \<Rightarrow> string \<Rightarrow> int \<Rightarrow> exn + instructions"
  settings_dict :: params

text \<open>What a run leaves behind outside its return value: the primitive calls in the
  order they were made, the printed lines, the status queue, and the arguments of the
  planning calls (request and step count) in the order they were made.\<close>

record world =
  trace :: "prim list"
  stdout :: "log list"
  status_queue :: "string option list"
  planner_calls :: "(string \<times> int) list"

definition world0 :: world where
  "world0 = \<lparr>trace = [], stdout = [], status_queue = [], planner_calls = []\<rparr>"

definition call :: "env \<Rightarrow> world \<Rightarrow> prim \<Rightarrow> world \<times> exn option" where
  "call e w p = (w\<lparr>trace := trace w @ [p]\<rparr>, raises e (trace w) p)"

definition print :: "world \<Rightarrow> log \<Rightarrow> world" where
  "print w l = w\<lparr>stdout := stdout w @ [l]\<rparr>"

subsection \<open>\<^verbatim>\<open>app/interpreter.py\<close>\<close>

text \<open>The name cleaning of \<^verbatim>\<open>execute_function\<close>: one of the two prefixes, whichever the
  name starts with, is removed wherever it occurs.\<close>

definition clean_function_name :: "string \<Rightarrow> string" where
  "clean_function_name function_name =
     (if startswith function_name ''pyautogui.'' then remove_all ''pyautogui.'' function_name
      else if startswith function_name ''time.'' then remove_all ''time.'' function_name
      else function_name)"

text \<open>The loop over a list of keys of the \<^verbatim>\<open>press\<close> branch; the first call that raises
  ends it.\<close>

fun press_each :: "env \<Rightarrow> world \<Rightarrow> pyval list \<Rightarrow> pyval \<Rightarrow> pyval \<Rightarrow> world \<times> exn option" where
  "press_each e w [] presses interval = (w, None)"
| "press_each e w (key # keys) presses interval =
     (case call e w (PyAutoGUI ''press'' [key] [(''presses'', presses), (''interval'', interval)]) of
        (w', Some ex) \<Rightarrow> (w', Some ex)
      | (w', None) \<Rightarrow> press_each e w' keys presses interval)"

text \<open>The branch taken when \<^verbatim>\<open>pyautogui\<close> has an attribute of the cleaned name.\<close>

definition call_pyautogui :: "env \<Rightarrow> world \<Rightarrow> string \<Rightarrow> params \<Rightarrow> world \<times> exn option" where
  "call_pyautogui e w function_name ps =
     (if function_name = ''write''
         \<and> (has_key ps ''string'' \<or> has_key ps ''text'' \<or> has_key ps ''message'') then
        (let string_to_write = py_or (py_or (get ps ''string'') (get ps ''text'')) (get ps ''message'');
             interval = get_default ps ''interval'' (VFloat (1 / 10))
         in call e w (PyAutoGUI ''write'' [string_to_write] [(''interval'', interval)]))
      else if function_name = ''press'' \<and> (has_key ps ''keys'' \<or> has_key ps ''key'') then
        (let keys_to_press = py_or (get ps ''keys'') (get ps ''key'');
             presses = get_default ps ''presses'' (VInt 1);
             interval = get_default ps ''interval'' (VFloat (1 / 5))
         in if is_list keys_to_press
            then press_each e w (list_items keys_to_press) presses interval
            else call e w (PyAutoGUI ''press'' [keys_to_press]
                             [(''presses'', presses), (''interval'', interval)]))
      else if function_name = ''hotkey'' then
        (if has_key ps ''keys'' then
           (let keys = get ps ''keys''
            in if is_list keys then call e w (PyAutoGUI ''hotkey'' (list_items keys) [])
               else call e w (PyAutoGUI ''hotkey'' [keys] []))
         else call e w (PyAutoGUI ''hotkey'' (dict_values ps) []))
      else if function_name = ''click'' then
        (let x = get ps ''x''; y = get ps ''y''; clicks = get_default ps ''clicks'' (VInt 1)
         in if x \<noteq> VNone \<and> y \<noteq> VNone
            then call e (print w (Clicking x y clicks)) (PyAutoGUI ''click'' [x, y] [(''clicks'', clicks)])
            else (print w (InvalidClickParameters ps), None))
      else call e w (PyAutoGUI function_name [] ps))"

text \<open>\<^verbatim>\<open>Interpreter.execute_function\<close>: the warm-up key press \<^verbatim>\<open>pyautogui.press("command",
  interval=0.2)\<close> and the short \<^verbatim>\<open>sleep(0.1)\<close> come first, inside the function, so an
  exception of either leaves it like any other.\<close>

definition warm_up :: prim where
  "warm_up = PyAutoGUI ''press'' [VStr ''command''] [(''interval'', VFloat (1 / 5))]"

definition settle :: prim where
  "settle = TimeSleep (VFloat (1 / 10))"

definition execute_function :: "env \<Rightarrow> world \<Rightarrow> string \<Rightarrow> params \<Rightarrow> world \<times> exn option" where
  "execute_function e w function_name ps =
     (case call e w warm_up of
        (w1, Some ex) \<Rightarrow> (w1, Some ex)
      | (w1, None) \<Rightarrow>
          (case call e w1 settle of
             (w2, Some ex) \<Rightarrow> (w2, Some ex)
           | (w2, None) \<Rightarrow>
               (let name = clean_function_name function_name
                in if name = ''sleep'' \<and> truthy (py_or (get ps ''secs'') (get ps ''seconds''))
                   then call e w2 (TimeSleep (py_or (get ps ''secs'') (get ps ''seconds'')))
                   else if hasattr e name then call_pyautogui e w2 name ps
                   else (print w2 (NoSuchFunction name), None))))"

text \<open>
  \<^verbatim>\<open>Interpreter.process_command\<close>. The result is \<open>Inl\<close> when the method raises to its caller
  and \<open>Inr\<close> of the returned flag otherwise. The lookup \<^verbatim>\<open>json_command['function']\<close>, the
  first \<^verbatim>\<open>print\<close> and the \<^verbatim>\<open>status_queue.put\<close> stand before the \<^verbatim>\<open>try\<close>.
\<close>

definition process_command :: "env \<Rightarrow> world \<Rightarrow> command \<Rightarrow> world \<times> (exn + bool)" where
  "process_command e w json_command =
     (case fn json_command of
        None \<Rightarrow> (w, Inl (Exn ''KeyError'' (CHR 0x27 # ''function'' @ [CHR 0x27])))
      | Some function_name \<Rightarrow>
          (let ps = params_of json_command;
               justification = human_readable_justification json_command;
               w1 = print w (NowPerforming function_name ps justification);
               w2 = w1\<lparr>status_queue := status_queue w1 @ [justification]\<rparr>
           in case execute_function e w2 function_name ps of
                (w3, None) \<Rightarrow> (w3, Inr True)
              | (w3, Some ex) \<Rightarrow>
                  (print (print (print (print (print w3
                     (ProblemExecuting ex))
                     (JsonReceived json_command))
                     WhatWeExtracted)
                     (ExtractedFunctionName function_name))
                     (ExtractedParameters ps),
                   Inr False)))"

text \<open>\<^verbatim>\<open>Interpreter.process_commands\<close>: the first command that fails ends the list.\<close>

fun process_commands :: "env \<Rightarrow> world \<Rightarrow> command list \<Rightarrow> world \<times> (exn + bool)" where
  "process_commands e w [] = (w, Inr True)"
| "process_commands e w (c # cs) =
     (case process_command e w c of
        (w', Inl ex) \<Rightarrow> (w', Inl ex)
      | (w', Inr success) \<Rightarrow>
          (if \<not> success then (w', Inr False) else process_commands e w' cs))"

subsection \<open>\<^verbatim>\<open>langgraph_interface/tools.py\<close>\<close>

text \<open>An f-string field \<^verbatim>\<open>{v}\<close>: a string stands for itself, any other value is
  formatted by Python.\<close>

definition py_str :: "env \<Rightarrow> pyval \<Rightarrow> string" where
  "py_str e v = (case v of VStr s \<Rightarrow> s | _ \<Rightarrow> fmt e v)"

fun is_str :: "pyval \<Rightarrow> bool" where
  "is_str (VStr s) = True"
| "is_str v = False"

fun join_str :: "string \<Rightarrow> string list \<Rightarrow> string" where
  "join_str sep [] = []"
| "join_str sep [s] = s"
| "join_str sep (s # t # ss) = s @ sep @ join_str sep (t # ss)"

text \<open>\<^verbatim>\<open>'+'.join(keys)\<close>: a \<^verbatim>\<open>TypeError\<close> unless every item is a string.\<close>

definition join_plus :: "env \<Rightarrow> pyval list \<Rightarrow> exn + string" where
  "join_plus e keys =
     (if list_all is_str keys then Inr (join_str ''+'' (map (py_str e) keys))
      else Inl (Exn ''TypeError'' (join_msg e keys)))"

definition click_tool :: "env \<Rightarrow> world \<Rightarrow> pyval \<Rightarrow> pyval \<Rightarrow> pyval \<Rightarrow> world \<times> (exn + string)" where
  "click_tool e w x y clicks =
     (case call e w (PyAutoGUI ''click'' [x, y] [(''clicks'', clicks)]) of
        (w', None) \<Rightarrow>
          (w', Inr (''Clicked at ('' @ py_str e x @ '', '' @ py_str e y @ '') with ''
                     @ py_str e clicks @ '' clicks''))
      | (w', Some ex) \<Rightarrow> (w', Inr (''Click failed: '' @ exn_str ex)))"

definition type_text :: "env \<Rightarrow> world \<Rightarrow> pyval \<Rightarrow> pyval \<Rightarrow> world \<times> (exn + string)" where
  "type_text e w text interval =
     (case call e w (PyAutoGUI ''write'' [text] [(''interval'', interval)]) of
        (w', None) \<Rightarrow> (w', Inr (''Typed: '' @ py_str e text))
      | (w', Some ex) \<Rightarrow> (w', Inr (''Type failed: '' @ exn_str ex)))"

definition press_key :: "env \<Rightarrow> world \<Rightarrow> pyval \<Rightarrow> pyval \<Rightarrow> world \<times> (exn + string)" where
  "press_key e w key presses =
     (if is_list key then
        (case call e w (PyAutoGUI ''hotkey'' (list_items key) []) of
           (w', None) \<Rightarrow>
             (case join_plus e (list_items key) of
                Inr joined \<Rightarrow> (w', Inr (''Pressed hotkey: '' @ joined))
              | Inl ex \<Rightarrow> (w', Inr (''Key press failed: '' @ exn_str ex)))
         | (w', Some ex) \<Rightarrow> (w', Inr (''Key press failed: '' @ exn_str ex)))
      else
        (case call e w (PyAutoGUI ''press'' [key] [(''presses'', presses)]) of
           (w', None) \<Rightarrow>
             (w', Inr (''Pressed key: '' @ py_str e key @ '' ('' @ py_str e presses @ '' times)''))
         | (w', Some ex) \<Rightarrow> (w', Inr (''Key press failed: '' @ exn_str ex))))"

definition hotkey :: "env \<Rightarrow> world \<Rightarrow> pyval list \<Rightarrow> world \<times> (exn + string)" where
  "hotkey e w keys =
     (case call e w (PyAutoGUI ''hotkey'' keys []) of
        (w', None) \<Rightarrow>
          (case join_plus e keys of
             Inr joined \<Rightarrow> (w', Inr (''Pressed hotkey: '' @ joined))
           | Inl ex \<Rightarrow> (w', Inr (''Hotkey failed: '' @ exn_str ex)))
      | (w', Some ex) \<Rightarrow> (w', Inr (''Hotkey failed: '' @ exn_str ex)))"

text \<open>\<^verbatim>\<open>sleep_tool\<close> has no \<^verbatim>\<open>try\<close>: an exception of \<^verbatim>\<open>time.sleep\<close> leaves it.\<close>

definition sleep_tool :: "env \<Rightarrow> world \<Rightarrow> pyval \<Rightarrow> world \<times> (exn + string)" where
  "sleep_tool e w seconds =
     (case call e w (TimeSleep seconds) of
        (w', None) \<Rightarrow> (w', Inr (''Slept for '' @ py_str e seconds @ '' seconds''))
      | (w', Some ex) \<Rightarrow> (w', Inl ex))"

definition take_screenshot :: "env \<Rightarrow> world \<Rightarrow> world \<times> (exn + string)" where
  "take_screenshot e w =
     (case call e w Capture of
        (w', None) \<Rightarrow>
          (w', Inr (''Screenshot taken: '' @ py_str e (VInt (int (capture_len e (trace w))))
                     @ '' characters''))
      | (w', Some ex) \<Rightarrow> (w', Inr (''Screenshot failed: '' @ exn_str ex)))"

text \<open>The list \<^verbatim>\<open>create_pyautogui_tools()\<close> returns, in its order.\<close>

datatype tool = ClickTool | TypeTextTool | PressKeyTool | HotkeyTool | SleepTool | TakeScreenshotTool

definition create_pyautogui_tools :: "tool list" where
  "create_pyautogui_tools =
     [ClickTool, TypeTextTool, PressKeyTool, HotkeyTool, SleepTool, TakeScreenshotTool]"

text \<open>
  The annotated types of the tool functions' parameters, and the binding of a parameter
  dictionary to a signature as \<^verbatim>\<open>tool.invoke\<close> does it: a parameter given is converted to
  its annotated type, a parameter not given takes the function's default, a required
  parameter not given or a failed conversion is a validation error, and keys that are not
  parameters are dropped.
\<close>

datatype pyty = TInt | TFloat | TStr | TAny

fun pyty_name :: "pyty \<Rightarrow> string" where
  "pyty_name TInt = ''int''"
| "pyty_name TFloat = ''float''"
| "pyty_name TStr = ''str''"
| "pyty_name TAny = ''Any''"

definition convert :: "env \<Rightarrow> pyty \<Rightarrow> pyval \<Rightarrow> pyval option" where
  "convert e ty v = (case ty of TAny \<Rightarrow> Some v | _ \<Rightarrow> coerce e (pyty_name ty) v)"

fun bind_args :: "env \<Rightarrow> (string \<times> pyty \<times> pyval option) list \<Rightarrow> params \<Rightarrow> pyval list option" where
  "bind_args e [] ps = Some []"
| "bind_args e ((name, ty, dflt) # sig) ps =
     (case (case map_of ps name of None \<Rightarrow> dflt | Some v \<Rightarrow> convert e ty v) of
        None \<Rightarrow> None
      | Some a \<Rightarrow> (case bind_args e sig ps of None \<Rightarrow> None | Some as \<Rightarrow> Some (a # as)))"

definition validation_error :: "env \<Rightarrow> string \<Rightarrow> params \<Rightarrow> exn" where
  "validation_error e name ps = Exn ''ValidationError'' (coerce_msg e name ps)"

fun invoke :: "env \<Rightarrow> world \<Rightarrow> tool \<Rightarrow> params \<Rightarrow> world \<times> (exn + string)" where
  "invoke e w ClickTool ps =
     (case bind_args e [(''x'', TInt, None), (''y'', TInt, None), (''clicks'', TInt, Some (VInt 1))] ps of
        Some [x, y, clicks] \<Rightarrow> click_tool e w x y clicks
      | _ \<Rightarrow> (w, Inl (validation_error e ''click'' ps)))"
| "invoke e w TypeTextTool ps =
     (case bind_args e [(''text'', TStr, None), (''interval'', TFloat, Some (VFloat (1 / 20)))] ps of
        Some [text, interval] \<Rightarrow> type_text e w text interval
      | _ \<Rightarrow> (w, Inl (validation_error e ''type_text'' ps)))"
| "invoke e w PressKeyTool ps =
     (case bind_args e [(''key'', TAny, None), (''presses'', TInt, Some (VInt 1))] ps of
        Some [key, presses] \<Rightarrow> press_key e w key presses
      | _ \<Rightarrow> (w, Inl (validation_error e ''press_key'' ps)))"
| "invoke e w HotkeyTool ps =
     (case hotkey_args e ps of
        Inr keys \<Rightarrow> hotkey e w keys
      | Inl ex \<Rightarrow> (w, Inl ex))"
| "invoke e w SleepTool ps =
     (case bind_args e [(''seconds'', TFloat, Some (VFloat 1))] ps of
        Some [seconds] \<Rightarrow> sleep_tool e w seconds
      | _ \<Rightarrow> (w, Inl (validation_error e ''sleep'' ps)))"
| "invoke e w TakeScreenshotTool ps = take_screenshot e w"

subsection \<open>\<^verbatim>\<open>langgraph_interface/state.py\<close>\<close>

text \<open>The messages of the run. The prompt texts of the system and the human message are
  not modelled; the text of an AI message is.\<close>

datatype message = SystemMessage | HumanMessage | AIMessage string

text \<open>One entry of \<^verbatim>\<open>execution_results\<close>.\<close>

record exec_result =
  r_function :: string
  r_parameters :: params
  r_justification :: string
  r_result :: string
  r_success :: bool

text \<open>\<^verbatim>\<open>OpenInterfaceState\<close>.\<close>

record state =
  messages :: "message list"
  user_request :: string
  step_count :: int
  max_steps :: int
  current_instructions :: "instructions option"
  execution_results :: "exec_result list"
  screenshot_data :: "string option"
  is_complete :: bool
  error_message :: "string option"
  interrupt_requested :: bool
  model_name :: pyval
  api_key :: pyval
  custom_instructions :: pyval

text \<open>
  The dictionary a node returns holds some of the keys of the state. The graph writes
  each returned key over the state's value of that name; only \<^verbatim>\<open>messages\<close> is declared
  with a reducer (\<^verbatim>\<open>add_messages\<close>), which appends.
\<close>

record update =
  u_messages :: "message list"
  u_current_instructions :: "instructions option"
  u_execution_results :: "exec_result list option"
  u_step_count :: "int option"
  u_screenshot_data :: "string option"
  u_is_complete :: "bool option"
  u_error_message :: "string option"

definition no_update :: update where
  "no_update = \<lparr>u_messages = [], u_current_instructions = None, u_execution_results = None,
     u_step_count = None, u_screenshot_data = None, u_is_complete = None,
     u_error_message = None\<rparr>"

definition apply_update :: "state \<Rightarrow> update \<Rightarrow> state" where
  "apply_update s u = s\<lparr>
     messages := messages s @ u_messages u,
     current_instructions :=
       (case u_current_instructions u of None \<Rightarrow> current_instructions s | Some i \<Rightarrow> Some i),
     execution_results :=
       (case u_execution_results u of None \<Rightarrow> execution_results s | Some rs \<Rightarrow> rs),
     step_count := (case u_step_count u of None \<Rightarrow> step_count s | Some n \<Rightarrow> n),
     screenshot_data :=
       (case u_screenshot_data u of None \<Rightarrow> screenshot_data s | Some d \<Rightarrow> Some d),
     is_complete := (case u_is_complete u of None \<Rightarrow> is_complete s | Some b \<Rightarrow> b),
     error_message :=
       (case u_error_message u of None \<Rightarrow> error_message s | Some m \<Rightarrow> Some m)\<rparr>"

text \<open>The truth value of an optional string: \<^verbatim>\<open>None\<close> and \<^verbatim>\<open>""\<close> are false.\<close>

definition truthy_str :: "string option \<Rightarrow> bool" where
  "truthy_str m = (case m of None \<Rightarrow> False | Some s \<Rightarrow> s \<noteq> [])"


subsection \<open>\<^verbatim>\<open>langgraph_interface/nodes.py\<close>\<close>

definition tool_mapping :: "(string \<times> nat) list" where
  "tool_mapping =
     [(''click'', 0), (''type_text'', 1), (''write'', 1), (''press_key'', 2), (''press'', 2),
      (''hotkey'', 3), (''sleep'', 4), (''take_screenshot'', 5)]"

text \<open>The parameter mapping of \<^verbatim>\<open>_execute_step\<close> for a name of the table. \<open>Inl keys\<close> is
  the \<^verbatim>\<open>hotkey\<close> case that calls the tool's function directly; \<open>Inr params\<close> is the
  dictionary handed to \<^verbatim>\<open>tool.invoke\<close>.\<close>

definition map_parameters :: "string \<Rightarrow> params \<Rightarrow> pyval list + params" where
  "map_parameters function_name ps =
     (if function_name \<in> set [''write'', ''type_text''] then
        (if has_key ps ''text''
         then Inr [(''text'', get ps ''text''),
                   (''interval'', get_default ps ''interval'' (VFloat (1 / 20)))]
         else Inr ps)
      else if function_name \<in> set [''press'', ''press_key''] then
        (if has_key ps ''keys''
         then Inr [(''key'', get ps ''keys''), (''presses'', get_default ps ''presses'' (VInt 1))]
         else Inr ps)
      else if function_name = ''hotkey'' then
        (if has_key ps ''keys'' \<and> is_list (get ps ''keys'')
         then Inl (list_items (get ps ''keys''))
         else Inr ps)
      else if function_name = ''sleep'' then
        (if has_key ps ''seconds'' then Inr [(''seconds'', get ps ''seconds'')]
         else if has_key ps ''secs'' then Inr [(''seconds'', get ps ''secs'')]
         else Inr [(''seconds'', VInt 1)])
      else Inr ps)"

text \<open>The name cleaning of \<^verbatim>\<open>_execute_step\<close>: only the \<^verbatim>\<open>pyautogui.\<close> prefix is known.\<close>

definition strip_pyautogui :: "string \<Rightarrow> string" where
  "strip_pyautogui function_name =
     (if startswith function_name ''pyautogui.'' then remove_all ''pyautogui.'' function_name
      else function_name)"

text \<open>\<^verbatim>\<open>OpenInterfaceNodes._execute_step\<close>: every exception below the table lookup becomes
  the string \<^verbatim>\<open>Execution failed: ...\<close>.\<close>

definition execute_step :: "env \<Rightarrow> world \<Rightarrow> string \<Rightarrow> params \<Rightarrow> world \<times> string" where
  "execute_step e w function_name0 ps =
     (let function_name = strip_pyautogui function_name0
      in case map_of tool_mapping function_name of
           None \<Rightarrow> (w, ''Unknown function: '' @ function_name)
         | Some tool_index \<Rightarrow>
             (let tool = create_pyautogui_tools ! tool_index;
                  (w', r) = (case map_parameters function_name ps of
                               Inl keys \<Rightarrow> hotkey e w keys
                             | Inr params \<Rightarrow> invoke e w tool params)
              in case r of
                   Inr result \<Rightarrow> (w', result)
                 | Inl ex \<Rightarrow> (w', ''Execution failed: '' @ exn_str ex)))"

text \<open>The loop of \<^verbatim>\<open>execution_node\<close>. The flag is read before every step, from the
  dictionary the node was called with; \<open>None\<close> is the early return of the interrupted
  case, which carries no results.\<close>

fun execute_steps ::
  "env \<Rightarrow> world \<Rightarrow> state \<Rightarrow> command list \<Rightarrow> exec_result list \<Rightarrow> world \<times> exec_result list option"
where
  "execute_steps e w s [] results = (w, Some results)"
| "execute_steps e w s (step # rest) results =
     (if interrupt_requested s
      then (w, None)
      else
        (let function_name = name_of step;
             ps = params_of step;
             justification = justification_of step;
             (w', result) = execute_step e w function_name ps
         in execute_steps e w' s rest
              (results @ [\<lparr>r_function = function_name, r_parameters = ps,
                           r_justification = justification, r_result = result,
                           r_success = (\<not> contains (lower result) ''failed'')\<rparr>])))"

definition execution_node :: "env \<Rightarrow> world \<Rightarrow> state \<Rightarrow> world \<times> update" where
  "execution_node e w s =
     (case current_instructions s of
        None \<Rightarrow>
          (w, no_update\<lparr>u_error_message := Some ''No instructions to execute'',
                         u_is_complete := Some True\<rparr>)
      | Some ins \<Rightarrow>
          (if steps ins = [] then
             (w, no_update\<lparr>u_error_message := Some ''No instructions to execute'',
                            u_is_complete := Some True\<rparr>)
           else
             (case execute_steps e w s (steps ins) [] of
                (w', None) \<Rightarrow>
                  (w', no_update\<lparr>u_error_message := Some ''Execution interrupted by user'',
                                  u_is_complete := Some True\<rparr>)
              | (w', Some results) \<Rightarrow>
                  (w', no_update\<lparr>u_execution_results := Some results,
                                  u_step_count := Some (step_count s + 1)\<rparr>))))"

text \<open>\<^verbatim>\<open>planning_node\<close>. On the first step it invokes \<^verbatim>\<open>self.tools[4]\<close> before the \<^verbatim>\<open>try\<close>;
  the value goes into the node's own copy of the state and is not part of the returned
  dictionary. The planner is called with \<^verbatim>\<open>state["user_request"]\<close> and
  \<^verbatim>\<open>state["step_count"]\<close>.\<close>

definition planning_node :: "env \<Rightarrow> world \<Rightarrow> state \<Rightarrow> world \<times> (exn + update)" where
  "planning_node e w s =
     (case (if step_count s = 0 then invoke e w (create_pyautogui_tools ! 4) []
            else (w, Inr [])) of
        (w1, Inl ex) \<Rightarrow> (w1, Inl ex)
      | (w1, Inr screenshot_result) \<Rightarrow>
          (let w2 = w1\<lparr>planner_calls := planner_calls w1 @ [(user_request s, step_count s)]\<rparr>
           in case planner e (length (planner_calls w1)) (user_request s) (step_count s) of
                Inr ins \<Rightarrow>
                  (w2, Inr (no_update\<lparr>u_current_instructions := Some ins,
                                       u_messages := [SystemMessage, HumanMessage]\<rparr>))
              | Inl ex \<Rightarrow>
                  (w2, Inr (no_update\<lparr>u_error_message := Some (''Planning failed: '' @ exn_str ex),
                                       u_is_complete := Some True\<rparr>))))"

text \<open>\<^verbatim>\<open>validation_node\<close>: \<^verbatim>\<open>instructions.get\<close> on \<^verbatim>\<open>None\<close> is an \<^verbatim>\<open>AttributeError\<close>.\<close>

definition validation_node :: "state \<Rightarrow> exn + update" where
  "validation_node s =
     (case current_instructions s of
        None \<Rightarrow> Inl (Exn ''AttributeError'' ''NoneType object has no attribute get'')
      | Some ins \<Rightarrow>
          (if truthy_str (done_msg ins) then
             Inr (no_update\<lparr>u_is_complete := Some True,
                             u_messages := [AIMessage (the (done_msg ins))]\<rparr>)
           else if step_count s \<ge> max_steps s then
             Inr (no_update\<lparr>u_is_complete := Some True,
                             u_error_message := Some ''Maximum steps exceeded''\<rparr>)
           else Inr (no_update\<lparr>u_is_complete := Some False\<rparr>)))"

definition screenshot_node :: "env \<Rightarrow> world \<Rightarrow> state \<Rightarrow> world \<times> update" where
  "screenshot_node e w s =
     (case invoke e w (create_pyautogui_tools ! 4) [] of
        (w', Inr screenshot_result) \<Rightarrow> (w', no_update\<lparr>u_screenshot_data := Some screenshot_result\<rparr>)
      | (w', Inl ex) \<Rightarrow>
          (w', no_update\<lparr>u_error_message := Some (''Screenshot failed: '' @ exn_str ex)\<rparr>))"

definition response_node :: "state \<Rightarrow> exn + update" where
  "response_node s =
     (if truthy_str (error_message s) then
        Inr (no_update\<lparr>u_messages :=
               [AIMessage (''Task completed with error: '' @ the (error_message s))],
             u_is_complete := Some True\<rparr>)
      else
        (case current_instructions s of
           None \<Rightarrow> Inl (Exn ''AttributeError'' ''NoneType object has no attribute get'')
         | Some ins \<Rightarrow>
             Inr (no_update\<lparr>u_messages :=
                    [AIMessage (case done_msg ins of None \<Rightarrow> ''Task completed successfully''
                                | Some d \<Rightarrow> d)],
                  u_is_complete := Some True\<rparr>)))"

subsection \<open>\<^verbatim>\<open>langgraph_interface/graph.py\<close>\<close>

definition should_continue :: "state \<Rightarrow> string" where
  "should_continue s =
     (if is_complete s then ''complete''
      else if truthy_str (error_message s) then ''complete''
      else if interrupt_requested s then ''complete''
      else ''continue'')"

text \<open>
  The compiled graph: \<^verbatim>\<open>START\<close> to planning, planning to execution, execution to
  validation, validation to screenshot or response by \<^verbatim>\<open>_should_continue\<close>, screenshot
  to planning, response to \<^verbatim>\<open>END\<close>. The first argument bounds the number of node
  executions, as the graph library's recursion limit does; running out of it is the
  library's \<^verbatim>\<open>GraphRecursionError\<close>. An exception of a node leaves the graph.
\<close>

datatype node = Planning | Execution | Validation | Screenshot | Response

text \<open>One node execution: the node's function, the merge of its dictionary into the
  state, and the next node by the edges (\<open>None\<close> is \<^verbatim>\<open>END\<close>).\<close>

fun graph_step :: "env \<Rightarrow> node \<Rightarrow> world \<Rightarrow> state \<Rightarrow> world \<times> (exn + node option \<times> state)" where
  "graph_step e Planning w s =
     (case planning_node e w s of
        (w', Inl ex) \<Rightarrow> (w', Inl ex)
      | (w', Inr u) \<Rightarrow> (w', Inr (Some Execution, apply_update s u)))"
| "graph_step e Execution w s =
     (case execution_node e w s of
        (w', u) \<Rightarrow> (w', Inr (Some Validation, apply_update s u)))"
| "graph_step e Validation w s =
     (case validation_node s of
        Inl ex \<Rightarrow> (w, Inl ex)
      | Inr u \<Rightarrow>
          (let s' = apply_update s u
           in (w, Inr (Some (if should_continue s' = ''continue'' then Screenshot else Response),
                       s'))))"
| "graph_step e Screenshot w s =
     (case screenshot_node e w s of
        (w', u) \<Rightarrow> (w', Inr (Some Planning, apply_update s u)))"
| "graph_step e Response w s =
     (case response_node s of
        Inl ex \<Rightarrow> (w, Inl ex)
      | Inr u \<Rightarrow> (w, Inr (None, apply_update s u)))"

fun run :: "env \<Rightarrow> nat \<Rightarrow> node \<Rightarrow> world \<Rightarrow> state \<Rightarrow> world \<times> (exn + state)" where
  "run e 0 n w s = (w, Inl (Exn ''GraphRecursionError'' ''Recursion limit reached''))"
| "run e (Suc k) n w s =
     (case graph_step e n w s of
        (w', Inl ex) \<Rightarrow> (w', Inl ex)
      | (w', Inr (None, s')) \<Rightarrow> (w', Inr s')
      | (w', Inr (Some n', s')) \<Rightarrow> run e k n' w' s')"

text \<open>The configuration reached after a number of node executions, when the graph has
  neither ended nor failed before.\<close>

fun after_steps :: "env \<Rightarrow> nat \<Rightarrow> node \<Rightarrow> world \<Rightarrow> state \<Rightarrow> (node \<times> world \<times> state) option" where
  "after_steps e 0 n w s = Some (n, w, s)"
| "after_steps e (Suc k) n w s =
     (case graph_step e n w s of
        (w', Inr (Some n', s')) \<Rightarrow> after_steps e k n' w' s'
      | _ \<Rightarrow> None)"

definition initial_state :: "env \<Rightarrow> string \<Rightarrow> int \<Rightarrow> state" where
  "initial_state e request limit =
     \<lparr>messages = [], user_request = request, step_count = 0, max_steps = limit,
      current_instructions = None, execution_results = [], screenshot_data = None,
      is_complete = False, error_message = None, interrupt_requested = False,
      model_name = get_default (settings_dict e) ''model'' (VStr ''gemini-1.5-flash''),
      api_key = get_default (settings_dict e) ''api_key'' (VStr []),
      custom_instructions = get_default (settings_dict e) ''custom_llm_instructions'' (VStr [])\<rparr>"

text \<open>\<^verbatim>\<open>execute_request\<close>: the final state, or the two-key dictionary of the \<^verbatim>\<open>except\<close>
  branch.\<close>

datatype request_result = FinalState state | GraphFailed string bool

definition execute_request :: "env \<Rightarrow> nat \<Rightarrow> world \<Rightarrow> string \<Rightarrow> int \<Rightarrow> world \<times> request_result" where
  "execute_request e recursion_limit w request limit =
     (case run e recursion_limit Planning w (initial_state e request limit) of
        (w', Inr s) \<Rightarrow> (w', FinalState s)
      | (w', Inl ex) \<Rightarrow> (w', GraphFailed (''Graph execution failed: '' @ exn_str ex) True))"


subsection \<open>Concrete environments\<close>

text \<open>
  An environment in which no primitive raises, the \<^verbatim>\<open>pyautogui\<close> module has the five
  functions named, an argument converts to its annotated type only when it already has
  it (an integer also converts to a float), \<^verbatim>\<open>hotkey\<close> cannot be invoked from a
  dictionary, and the planner always answers with the same single \<^verbatim>\<open>write\<close> step and
  never with a \<^verbatim>\<open>done\<close> message.
\<close>

definition quiet_coerce :: "string \<Rightarrow> pyval \<Rightarrow> pyval option" where
  "quiet_coerce ty v =
     (if ty = ''int'' then (case v of VInt i \<Rightarrow> Some v | _ \<Rightarrow> None)
      else if ty = ''float'' then
        (case v of VInt i \<Rightarrow> Some (VFloat (of_int i)) | VFloat r \<Rightarrow> Some v | _ \<Rightarrow> None)
      else if ty = ''str'' then (case v of VStr s \<Rightarrow> Some v | _ \<Rightarrow> None)
      else Some v)"

definition quiet_fmt :: "pyval \<Rightarrow> string" where
  "quiet_fmt v =
     (case v of
        VInt i \<Rightarrow> (if i = 1 then ''1'' else ''<int>'')
      | VFloat r \<Rightarrow> (if r = 1 then ''1.0'' else ''<float>'')
      | _ \<Rightarrow> ''<value>'')"

definition write_hi :: command where
  "write_hi = \<lparr>fn = Some ''write'', parameters = Some [(''text'', VStr ''hi'')],
               human_readable_justification = Some ''typing''\<rparr>"

definition quiet_env :: env where
  "quiet_env =
     \<lparr>raises = (\<lambda>tr p. None),
      capture_len = (\<lambda>tr. 0),
      hasattr = (\<lambda>name. name \<in> set [''press'', ''write'', ''hotkey'', ''click'', ''moveTo'']),
      coerce = quiet_coerce,
      coerce_msg = (\<lambda>name ps. ''validation error''),
      hotkey_args = (\<lambda>ps. Inl (Exn ''TypeError'' ''unexpected keyword argument'')),
      fmt = quiet_fmt,
      join_msg = (\<lambda>keys. ''expected str instance''),
      planner = (\<lambda>n request k. Inr \<lparr>steps = [write_hi], done_msg = None\<rparr>),
      settings_dict = []\<rparr>"

text \<open>The same, but every \<^verbatim>\<open>pyautogui.click\<close> raises.\<close>

definition failing_click_env :: env where
  "failing_click_env =
     quiet_env\<lparr>raises :=
       (\<lambda>tr p. case p of
                  PyAutoGUI name args kwargs \<Rightarrow>
                    (if name = ''click'' then Some (Exn ''FailSafeException'' ''fail-safe triggered'')
                     else None)
                | _ \<Rightarrow> None)\<rparr>"

text \<open>The same as \<open>quiet_env\<close>, but \<^verbatim>\<open>time.sleep(1.0)\<close> raises whenever it is not the first
  primitive call of the run.\<close>

definition flaky_env :: env where
  "flaky_env =
     quiet_env\<lparr>raises :=
       (\<lambda>tr p. if p = TimeSleep (VFloat 1) \<and> tr \<noteq> [] then Some (Exn ''OSError'' ''boom'')
                else None)\<rparr>"

definition press_a :: command where
  "press_a = \<lparr>fn = Some ''press'', parameters = Some [(''key'', VStr ''a'')],
              human_readable_justification = Some ''press a''\<rparr>"

text \<open>A planner whose plan depends on the round: \<^verbatim>\<open>write\<close> first, \<^verbatim>\<open>press\<close> afterwards.\<close>

definition two_round_env :: env where
  "two_round_env =
     quiet_env\<lparr>planner :=
       (\<lambda>n request k. Inr \<lparr>steps = [if n = 0 then write_hi else press_a], done_msg = None\<rparr>)\<rparr>"


text \<open>Descriptors used as concrete inputs.\<close>

definition unknown_fn :: command where
  "unknown_fn = \<lparr>fn = Some ''unknown_fn'', parameters = None, human_readable_justification = None\<rparr>"

definition click_x_only :: command where
  "click_x_only = \<lparr>fn = Some ''click'', parameters = Some [(''x'', VInt 10)],
                   human_readable_justification = None\<rparr>"

definition click_10_20 :: command where
  "click_10_20 = \<lparr>fn = Some ''click'', parameters = Some [(''x'', VInt 10), (''y'', VInt 20)],
                  human_readable_justification = None\<rparr>"

definition press_a_b :: command where
  "press_a_b = \<lparr>fn = Some ''press'', parameters = Some [(''keys'', VList [VStr ''a'', VStr ''b''])],
                human_readable_justification = None\<rparr>"

definition press_enter :: command where
  "press_enter = \<lparr>fn = Some ''press'', parameters = Some [(''key'', VStr ''enter'')],
                  human_readable_justification = None\<rparr>"

definition type_failed :: command where
  "type_failed = \<lparr>fn = Some ''type_text'', parameters = Some [(''text'', VStr ''failed'')],
                  human_readable_justification = None\<rparr>"



text \<open>The state of a run of \<open>two_round_env\<close> with \<^verbatim>\<open>max_steps=2\<close> when its second round
  reaches the execution node.\<close>

definition after_round_one :: state where
  "after_round_one =
     (initial_state two_round_env ''go'' 2)
       \<lparr>messages := [SystemMessage, HumanMessage], step_count := 1,
        current_instructions := Some \<lparr>steps = [press_a], done_msg = None\<rparr>,
        execution_results := [\<lparr>r_function = ''write'', r_parameters = [(''text'', VStr ''hi'')],
                                r_justification = ''typing'', r_result = ''Typed: hi'',
                                r_success = True\<rparr>]\<rparr>"

text \<open>The messages of the assistant among the messages of a run.\<close>

fun is_ai :: "message \<Rightarrow> bool" where
  "is_ai (AIMessage m) = True"
| "is_ai m = False"

text \<open>The state and the world of a run of \<open>flaky_env\<close> with \<^verbatim>\<open>max_steps=3\<close> when its first
  round reaches the screenshot node.\<close>

definition before_capture :: state where
  "before_capture =
     (initial_state flaky_env ''go'' 3)
       \<lparr>messages := [SystemMessage, HumanMessage], step_count := 1,
        current_instructions := Some \<lparr>steps = [write_hi], done_msg = None\<rparr>,
        execution_results := [\<lparr>r_function = ''write'', r_parameters = [(''text'', VStr ''hi'')],
                                r_justification = ''typing'', r_result = ''Typed: hi'',
                                r_success = True\<rparr>]\<rparr>"

definition before_capture_world :: world where
  "before_capture_world =
     world0\<lparr>trace := [TimeSleep (VFloat 1),
                       PyAutoGUI ''write'' [VStr ''hi''] [(''interval'', VFloat (1 / 20))]],
            planner_calls := [(''go'', 0)]\<rparr>"
text \<open>A planner that never answers with a \<^verbatim>\<open>done\<close> message and whose plans have no steps.\<close>

definition empty_plan_env :: env where
  "empty_plan_env = quiet_env\<lparr>planner := (\<lambda>n request k. Inr \<lparr>steps = [], done_msg = None\<rparr>)\<rparr>"

text \<open>Every click raises, and the planner always asks for the same click.\<close>

definition click_plan_env :: env where
  "click_plan_env =
     failing_click_env\<lparr>planner := (\<lambda>n request k. Inr \<lparr>steps = [click_10_20], done_msg = None\<rparr>)\<rparr>"

text \<open>The entry recorded for the click when it fails.\<close>

definition failed_click :: exec_result where
  "failed_click =
     \<lparr>r_function = ''click'', r_parameters = [(''x'', VInt 10), (''y'', VInt 20)],
      r_justification = [], r_result = ''Click failed: fail-safe triggered'', r_success = False\<rparr>"

subsection \<open>Dispatch in order, as the specification words it\<close>

text \<open>
  The specification of the executing state: dispatch each descriptor of the plan strictly
  in order, one at a time, appending the result of each, whatever the results of the
  descriptors before it. \<open>recorded\<close> is the entry appended for a descriptor and its
  output; \<open>dispatch_in_order\<close> threads the world through the dispatches.
\<close>

definition recorded :: "command \<Rightarrow> string \<Rightarrow> exec_result" where
  "recorded c output =
     \<lparr>r_function = name_of c, r_parameters = params_of c, r_justification = justification_of c,
      r_result = output, r_success = (\<not> contains (lower output) ''failed'')\<rparr>"

fun dispatch_in_order :: "env \<Rightarrow> world \<Rightarrow> command list \<Rightarrow> world \<times> exec_result list" where
  "dispatch_in_order e w [] = (w, [])"
| "dispatch_in_order e w (c # cs) =
     (case execute_step e w (name_of c) (params_of c) of
        (w1, output) \<Rightarrow>
          (case dispatch_in_order e w1 cs of
             (w2, rs) \<Rightarrow> (w2, recorded c output # rs)))"

subsection \<open>A frame condition\<close>

text \<open>The tools touch the world only by appending primitive calls to the trace.\<close>

definition only_trace :: "world \<Rightarrow> world \<Rightarrow> bool" where
  "only_trace w w' = (\<exists>calls. w' = w\<lparr>trace := trace w @ calls\<rparr>)"


section \<open>Properties\<close>

subsection \<open>Auxiliary facts\<close>

lemmas interp_defs = process_command_def execute_function_def call_pyautogui_def call_def
  print_def clean_function_name_def startswith_def get_def get_default_def has_key_def py_or_def
  warm_up_def settle_def params_of_def

lemma press_each_quiet:
  "\<forall>tr p. raises e tr p = None \<Longrightarrow>
   press_each e w keys presses interval =
     (w\<lparr>trace := trace w @ map (\<lambda>k. PyAutoGUI ''press'' [k]
                                       [(''presses'', presses), (''interval'', interval)]) keys\<rparr>,
      None)"
  by (induction keys arbitrary: w) (simp_all add: call_def)

lemma only_trace_refl: "only_trace w w"
  unfolding only_trace_def by (rule exI [of _ "[]"]) simp

lemma only_trace_one: "only_trace w (w\<lparr>trace := trace w @ [p]\<rparr>)"
  unfolding only_trace_def by blast

lemma only_trace_fields:
  "only_trace w w' \<Longrightarrow> planner_calls w' = planner_calls w
     \<and> stdout w' = stdout w \<and> status_queue w' = status_queue w"
  by (auto simp add: only_trace_def)

lemma only_trace_click: "only_trace w (fst (click_tool e w x y c))"
  by (simp add: click_tool_def call_def only_trace_one split: option.splits)

lemma only_trace_type: "only_trace w (fst (type_text e w x y))"
  by (simp add: type_text_def call_def only_trace_one split: option.splits)

lemma only_trace_press: "only_trace w (fst (press_key e w x y))"
  by (simp add: press_key_def call_def only_trace_one split: option.splits sum.splits)

lemma only_trace_hotkey: "only_trace w (fst (hotkey e w ks))"
  by (simp add: hotkey_def call_def only_trace_one split: option.splits sum.splits)

lemma only_trace_sleep: "only_trace w (fst (sleep_tool e w x))"
  by (simp add: sleep_tool_def call_def only_trace_one split: option.splits)

lemma only_trace_shot: "only_trace w (fst (take_screenshot e w))"
  by (simp add: take_screenshot_def call_def only_trace_one split: option.splits)

lemma only_trace_invoke: "only_trace w (fst (invoke e w t ps))"
  by (cases t)
     (auto simp add: only_trace_refl only_trace_click only_trace_type only_trace_press
        only_trace_hotkey only_trace_sleep only_trace_shot
        split: option.splits list.splits sum.splits)

lemma only_trace_execute_step: "only_trace w (fst (execute_step e w n ps))"
proof (cases "map_of tool_mapping (strip_pyautogui n)")
  case None
  then show ?thesis by (simp add: execute_step_def only_trace_refl)
next
  case (Some i)
  show ?thesis
  proof (cases "map_parameters (strip_pyautogui n) ps")
    case (Inl keys)
    obtain w' r where h: "hotkey e w keys = (w', r)" by fastforce
    then have "only_trace w w'" using only_trace_hotkey [of w e keys] by simp
    with Some Inl h show ?thesis by (cases r) (simp_all add: execute_step_def)
  next
    case (Inr params)
    obtain w' r where h: "invoke e w (create_pyautogui_tools ! i) params = (w', r)" by fastforce
    then have "only_trace w w'"
      using only_trace_invoke [of w e "create_pyautogui_tools ! i" params] by simp
    with Some Inr h show ?thesis by (cases r) (simp_all add: execute_step_def)
  qed
qed

text \<open>Dispatch in order: an entry per descriptor, each the entry of the dispatch of that
  descriptor in the world the descriptors before it have left.\<close>

lemma length_dispatch_in_order: "length (snd (dispatch_in_order e w cs)) = length cs"
  by (induction cs arbitrary: w) (simp_all add: split_beta)

lemma dispatch_in_order_names:
  "map r_function (snd (dispatch_in_order e w cs)) = map name_of cs
   \<and> map r_parameters (snd (dispatch_in_order e w cs)) = map params_of cs"
  by (induction cs arbitrary: w) (simp_all add: split_beta recorded_def)

lemma dispatch_in_order_success:
  "\<forall>r\<in>set (snd (dispatch_in_order e w cs)).
      r_success r = (\<not> contains (lower (r_result r)) ''failed'')"
  by (induction cs arbitrary: w) (simp_all add: split_beta recorded_def)

lemma dispatch_in_order_planner_calls:
  "planner_calls (fst (dispatch_in_order e w cs)) = planner_calls w"
proof (induction cs arbitrary: w)
  case Nil
  then show ?case by simp
next
  case (Cons c cs)
  have "planner_calls (fst (execute_step e w (name_of c) (params_of c))) = planner_calls w"
    using only_trace_fields [OF only_trace_execute_step [of w e "name_of c" "params_of c"]]
    by simp
  with Cons.IH [of "fst (execute_step e w (name_of c) (params_of c))"] show ?case
    by (simp add: split_beta)
qed

lemma dispatch_in_order_nth:
  "i < length cs \<Longrightarrow>
     snd (dispatch_in_order e w cs) ! i =
       recorded (cs ! i)
         (snd (execute_step e (fst (dispatch_in_order e w (take i cs)))
                 (name_of (cs ! i)) (params_of (cs ! i))))
   \<and> fst (dispatch_in_order e w (take (Suc i) cs)) =
       fst (execute_step e (fst (dispatch_in_order e w (take i cs)))
              (name_of (cs ! i)) (params_of (cs ! i)))"
proof (induction cs arbitrary: w i)
  case Nil
  then show ?case by simp
next
  case (Cons c cs)
  show ?case
  proof (cases i)
    case 0
    then show ?thesis by (simp add: split_beta)
  next
    case (Suc j)
    with Cons.prems have j: "j < length cs" by simp
    from Cons.IH [OF j, of "fst (execute_step e w (name_of c) (params_of c))"] Suc
    show ?thesis by (simp add: split_beta)
  qed
qed

text \<open>The loop of \<^verbatim>\<open>execution_node\<close> with the flag not set is dispatch in order.\<close>

lemma execute_steps_dispatch:
  "\<not> interrupt_requested s \<Longrightarrow>
     execute_steps e w s cs acc =
       (fst (dispatch_in_order e w cs), Some (acc @ snd (dispatch_in_order e w cs)))"
  by (induction cs arbitrary: w acc) (simp_all add: split_beta Let_def recorded_def)

lemma execute_steps_interrupted:
  "interrupt_requested s \<Longrightarrow> cs \<noteq> [] \<Longrightarrow> execute_steps e w s cs acc = (w, None)"
  by (cases cs) simp_all

text \<open>What a completed loop of \<^verbatim>\<open>execution_node\<close> returns: one new entry per step, in the
  order of the steps, behind the entries it started with.\<close>

lemma execute_steps_Some:
  assumes "execute_steps e w s cs acc = (w', Some rs)"
  shows "\<exists>new. rs = acc @ new \<and> length new = length cs
       \<and> map r_function new = map name_of cs \<and> map r_parameters new = map params_of cs
       \<and> (\<forall>r\<in>set new. r_success r = (\<not> contains (lower (r_result r)) ''failed''))
       \<and> planner_calls w' = planner_calls w"
proof (cases "cs = []")
  case True
  with assms show ?thesis by simp
next
  case False
  have ni: "\<not> interrupt_requested s"
  proof
    assume "interrupt_requested s"
    from execute_steps_interrupted [OF this False] assms show False by simp
  qed
  from execute_steps_dispatch [OF ni, of e w cs acc] assms
  have eq: "w' = fst (dispatch_in_order e w cs)" "rs = acc @ snd (dispatch_in_order e w cs)"
    by simp_all
  show ?thesis
    by (rule exI [of _ "snd (dispatch_in_order e w cs)"])
       (simp add: eq length_dispatch_in_order dispatch_in_order_names
          dispatch_in_order_success dispatch_in_order_planner_calls)
qed

text \<open>Once \<^verbatim>\<open>process_commands\<close> has returned \<open>False\<close> on a list, commands behind that list
  change nothing.\<close>

lemma process_commands_False_append:
  "process_commands e w xs = (w1, Inr False) \<Longrightarrow>
     process_commands e w (xs @ rest) = (w1, Inr False)"
proof (induction xs arbitrary: w)
  case Nil
  then show ?case by simp
next
  case (Cons c xs)
  obtain w' r where h: "process_command e w c = (w', r)" by fastforce
  show ?case
  proof (cases r)
    case (Inl ex)
    with Cons.prems h show ?thesis by simp
  next
    case (Inr b)
    show ?thesis
    proof (cases b)
      case True
      with Cons.prems h Inr have "process_commands e w' xs = (w1, Inr False)" by simp
      from Cons.IH [OF this] h Inr True show ?thesis by simp
    next
      case False
      with Cons.prems h Inr show ?thesis by simp
    qed
  qed
qed

lemmas node_defs = execute_step_def strip_pyautogui_def startswith_def tool_mapping_def
  create_pyautogui_tools_def map_parameters_def has_key_def get_def get_default_def
  convert_def call_def join_plus_def py_str_def click_tool_def type_text_def press_key_def
  hotkey_def sleep_tool_def take_screenshot_def name_of_def params_of_def justification_of_def
  lower_def lower_char_def

lemmas quiet_defs = quiet_env_def quiet_coerce_def quiet_fmt_def world0_def


lemma run_numeral:
  "run e (numeral k) n w s =
     (case graph_step e n w s of
        (w', Inl ex) \<Rightarrow> (w', Inl ex)
      | (w', Inr (None, s')) \<Rightarrow> (w', Inr s')
      | (w', Inr (Some n', s')) \<Rightarrow> run e (pred_numeral k) n' w' s')"
  by (simp add: numeral_eq_Suc)

lemma after_steps_numeral:
  "after_steps e (numeral k) n w s =
     (case graph_step e n w s of
        (w', Inr (Some n', s')) \<Rightarrow> after_steps e (pred_numeral k) n' w' s'
      | _ \<Rightarrow> None)"
  by (simp add: numeral_eq_Suc)

lemmas graph_defs = execute_request_def initial_state_def planning_node_def execution_node_def
  validation_node_def screenshot_node_def response_node_def should_continue_def apply_update_def
  no_update_def truthy_str_def bind_args.simps


lemma run_continue:
  "graph_step e n w s = (w', Inr (Some n', s')) \<Longrightarrow> run e (Suc k) n w s = run e k n' w' s'"
  by simp

lemma run_end:
  "graph_step e n w s = (w', Inr (None, s')) \<Longrightarrow> run e (Suc k) n w s = (w', Inr s')"
  by simp

lemma sleep_invoke_ok:
  assumes "\<forall>tr. raises e tr (TimeSleep (VFloat 1)) = None"
  shows "invoke e w (create_pyautogui_tools ! 4) [] =
           (w\<lparr>trace := trace w @ [TimeSleep (VFloat 1)]\<rparr>,
            Inr (''Slept for '' @ py_str e (VFloat 1) @ '' seconds''))"
  using assms by (simp add: create_pyautogui_tools_def sleep_tool_def call_def)

lemma planning_ok:
  assumes "\<forall>n req k. \<exists>ins. planner e n req k = Inr ins \<and> steps ins \<noteq> [] \<and> \<not> truthy_str (done_msg ins)"
    and "\<forall>tr. raises e tr (TimeSleep (VFloat 1)) = None"
  shows "\<exists>w' ins. steps ins \<noteq> [] \<and> \<not> truthy_str (done_msg ins)
           \<and> planner_calls w' = planner_calls w @ [(user_request s, step_count s)]
           \<and> graph_step e Planning w s =
               (w', Inr (Some Execution,
                         s\<lparr>messages := messages s @ [SystemMessage, HumanMessage],
                           current_instructions := Some ins\<rparr>))"
proof -
  let ?w1 = "if step_count s = 0 then w\<lparr>trace := trace w @ [TimeSleep (VFloat 1)]\<rparr> else w"
  obtain ins where p: "planner e (length (planner_calls ?w1)) (user_request s) (step_count s) = Inr ins"
     "steps ins \<noteq> []" "\<not> truthy_str (done_msg ins)"
    using assms(1) by blast
  have "graph_step e Planning w s =
               (?w1\<lparr>planner_calls := planner_calls ?w1 @ [(user_request s, step_count s)]\<rparr>,
                Inr (Some Execution,
                         s\<lparr>messages := messages s @ [SystemMessage, HumanMessage],
                           current_instructions := Some ins\<rparr>))"
    using p(1) sleep_invoke_ok [OF assms(2)]
    by (cases "step_count s = 0")
       (simp_all add: planning_node_def Let_def apply_update_def no_update_def)
  moreover have "planner_calls (?w1\<lparr>planner_calls := planner_calls ?w1 @ [(user_request s, step_count s)]\<rparr>)
      = planner_calls w @ [(user_request s, step_count s)]" by simp
  ultimately show ?thesis using p(2,3) by blast
qed

lemma execution_ok:
  assumes "\<not> interrupt_requested s"
    and "current_instructions s = Some ins" and "steps ins \<noteq> []"
  shows "\<exists>w' rs. planner_calls w' = planner_calls w
           \<and> graph_step e Execution w s =
               (w', Inr (Some Validation,
                         s\<lparr>execution_results := rs, step_count := step_count s + 1\<rparr>))"
proof -
  from execute_steps_dispatch [OF assms(1), of e w "steps ins" "[]"] obtain w' rs
    where h: "execute_steps e w s (steps ins) [] = (w', Some rs)" by blast
  from execute_steps_Some [OF h] have pc: "planner_calls w' = planner_calls w" by blast
  have "graph_step e Execution w s =
               (w', Inr (Some Validation,
                         s\<lparr>execution_results := rs, step_count := step_count s + 1\<rparr>))"
    using assms(2,3) h by (simp add: execution_node_def apply_update_def no_update_def)
  with pc show ?thesis by blast
qed

lemma screenshot_ok:
  assumes "\<forall>tr. raises e tr (TimeSleep (VFloat 1)) = None"
  shows "graph_step e Screenshot w s =
           (w\<lparr>trace := trace w @ [TimeSleep (VFloat 1)]\<rparr>,
            Inr (Some Planning,
                 s\<lparr>screenshot_data := Some (''Slept for '' @ py_str e (VFloat 1) @ '' seconds'')\<rparr>))"
  using sleep_invoke_ok [OF assms]
  by (simp add: screenshot_node_def apply_update_def no_update_def)

lemma validation_continue:
  assumes "current_instructions s = Some ins" and "\<not> truthy_str (done_msg ins)"
    and "step_count s < max_steps s" and "\<not> truthy_str (error_message s)"
    and "\<not> interrupt_requested s"
  shows "graph_step e Validation w s = (w, Inr (Some Screenshot, s\<lparr>is_complete := False\<rparr>))"
  using assms
  by (simp add: validation_node_def apply_update_def no_update_def should_continue_def Let_def)

lemma validation_budget:
  assumes "current_instructions s = Some ins" and "\<not> truthy_str (done_msg ins)"
    and "max_steps s \<le> step_count s"
  shows "graph_step e Validation w s =
           (w, Inr (Some Response,
                    s\<lparr>is_complete := True, error_message := Some ''Maximum steps exceeded''\<rparr>))"
  using assms
  by (simp add: validation_node_def apply_update_def no_update_def should_continue_def Let_def)

lemma response_error:
  assumes "error_message s = Some m" and "m \<noteq> []"
  shows "graph_step e Response w s =
           (w, Inr (None, s\<lparr>messages := messages s @ [AIMessage (''Task completed with error: '' @ m)],
                            is_complete := True\<rparr>))"
  using assms by (simp add: response_node_def apply_update_def no_update_def truthy_str_def)


lemma full_round:
  assumes P: "\<forall>n req k. \<exists>ins. planner e n req k = Inr ins \<and> steps ins \<noteq> [] \<and> \<not> truthy_str (done_msg ins)"
    and S: "\<forall>tr. raises e tr (TimeSleep (VFloat 1)) = None"
    and s: "\<not> interrupt_requested s" "\<not> truthy_str (error_message s)"
    and b: "step_count s + 1 < max_steps s"
  shows "\<exists>w' s'. run e (Suc (Suc (Suc (Suc k)))) Planning w s = run e k Planning w' s'
           \<and> planner_calls w' = planner_calls w @ [(user_request s, step_count s)]
           \<and> step_count s' = step_count s + 1 \<and> user_request s' = user_request s
           \<and> max_steps s' = max_steps s \<and> \<not> interrupt_requested s'
           \<and> \<not> truthy_str (error_message s')
           \<and> messages s' = messages s @ [SystemMessage, HumanMessage]"
proof -
  from planning_ok [OF P S, of w s] obtain w1 ins where
    p: "steps ins \<noteq> []" "\<not> truthy_str (done_msg ins)" "planner_calls w1 = planner_calls w @ [(user_request s, step_count s)]"
       "graph_step e Planning w s =
          (w1, Inr (Some Execution, s\<lparr>messages := messages s @ [SystemMessage, HumanMessage],
                                      current_instructions := Some ins\<rparr>))"
    by blast
  let ?s1 = "s\<lparr>messages := messages s @ [SystemMessage, HumanMessage],
               current_instructions := Some ins\<rparr>"
  from execution_ok [where s = "?s1" and ins = ins and e = e and w = w1] s p(1) obtain w2 rs where
    x: "planner_calls w2 = planner_calls w1"
       "graph_step e Execution w1 ?s1 =
          (w2, Inr (Some Validation, ?s1\<lparr>execution_results := rs, step_count := step_count ?s1 + 1\<rparr>))"
    by auto
  let ?s2 = "?s1\<lparr>execution_results := rs, step_count := step_count ?s1 + 1\<rparr>"
  have v: "graph_step e Validation w2 ?s2 = (w2, Inr (Some Screenshot, ?s2\<lparr>is_complete := False\<rparr>))"
    by (rule validation_continue [of _ ins]) (use s p b in simp_all)
  let ?s3 = "?s2\<lparr>is_complete := False\<rparr>"
  note c = screenshot_ok [OF S, of w2 ?s3]
  let ?w3 = "w2\<lparr>trace := trace w2 @ [TimeSleep (VFloat 1)]\<rparr>"
  let ?s4 = "?s3\<lparr>screenshot_data := Some (''Slept for '' @ py_str e (VFloat 1) @ '' seconds'')\<rparr>"
  have "run e (Suc (Suc (Suc (Suc k)))) Planning w s = run e k Planning ?w3 ?s4"
    by (simp only: run_continue [OF p(4)] run_continue [OF x(2)] run_continue [OF v] run_continue [OF c])
  moreover have "planner_calls ?w3 = planner_calls w @ [(user_request s, step_count s)]"
    using x(1) p(3) by simp
  ultimately show ?thesis using s
    by (intro exI [of _ ?w3] exI [of _ ?s4]) simp
qed

lemma last_round:
  assumes P: "\<forall>n req k. \<exists>ins. planner e n req k = Inr ins \<and> steps ins \<noteq> [] \<and> \<not> truthy_str (done_msg ins)"
    and S: "\<forall>tr. raises e tr (TimeSleep (VFloat 1)) = None"
    and s: "\<not> interrupt_requested s"
    and b: "max_steps s \<le> step_count s + 1"
  shows "\<exists>w' s'. run e (Suc (Suc (Suc (Suc k)))) Planning w s = (w', Inr s')
           \<and> planner_calls w' = planner_calls w @ [(user_request s, step_count s)]
           \<and> step_count s' = step_count s + 1
           \<and> is_complete s' \<and> error_message s' = Some ''Maximum steps exceeded''
           \<and> messages s' = messages s @ [SystemMessage, HumanMessage,
                 AIMessage ''Task completed with error: Maximum steps exceeded'']"
proof -
  from planning_ok [OF P S, of w s] obtain w1 ins where
    p: "steps ins \<noteq> []" "\<not> truthy_str (done_msg ins)" "planner_calls w1 = planner_calls w @ [(user_request s, step_count s)]"
       "graph_step e Planning w s =
          (w1, Inr (Some Execution, s\<lparr>messages := messages s @ [SystemMessage, HumanMessage],
                                      current_instructions := Some ins\<rparr>))"
    by blast
  let ?s1 = "s\<lparr>messages := messages s @ [SystemMessage, HumanMessage],
               current_instructions := Some ins\<rparr>"
  from execution_ok [where s = "?s1" and ins = ins and e = e and w = w1] s p(1) obtain w2 rs where
    x: "planner_calls w2 = planner_calls w1"
       "graph_step e Execution w1 ?s1 =
          (w2, Inr (Some Validation, ?s1\<lparr>execution_results := rs, step_count := step_count ?s1 + 1\<rparr>))"
    by auto
  let ?s2 = "?s1\<lparr>execution_results := rs, step_count := step_count ?s1 + 1\<rparr>"
  have v: "graph_step e Validation w2 ?s2 =
      (w2, Inr (Some Response, ?s2\<lparr>is_complete := True, error_message := Some ''Maximum steps exceeded''\<rparr>))"
    by (rule validation_budget [of _ ins]) (use p b in simp_all)
  let ?s3 = "?s2\<lparr>is_complete := True, error_message := Some ''Maximum steps exceeded''\<rparr>"
  have r: "graph_step e Response w2 ?s3 =
      (w2, Inr (None, ?s3\<lparr>messages := messages ?s3 @ [AIMessage (''Task completed with error: '' @ ''Maximum steps exceeded'')],
                            is_complete := True\<rparr>))"
    by (rule response_error) simp_all
  let ?s4 = "?s3\<lparr>messages := messages ?s3 @ [AIMessage (''Task completed with error: '' @ ''Maximum steps exceeded'')],
                            is_complete := True\<rparr>"
  have "run e (Suc (Suc (Suc (Suc k)))) Planning w s = (w2, Inr ?s4)"
    by (simp only: run_continue [OF p(4)] run_continue [OF x(2)] run_continue [OF v] run_end [OF r])
  moreover have "planner_calls w2 = planner_calls w @ [(user_request s, step_count s)]"
    using x(1) p(3) by simp
  ultimately show ?thesis
    by (intro exI [of _ w2] exI [of _ ?s4]) simp
qed


lemma apply_update_error:
  "error_message (apply_update s u) =
     (case u_error_message u of None \<Rightarrow> error_message s | Some m \<Rightarrow> Some m)"
  by (simp add: apply_update_def)

lemma apply_update_instructions:
  "current_instructions (apply_update s u) =
     (case u_current_instructions u of None \<Rightarrow> current_instructions s | Some i \<Rightarrow> Some i)"
  by (simp add: apply_update_def)

lemma apply_update_complete:
  "is_complete (apply_update s u) = (case u_is_complete u of None \<Rightarrow> is_complete s | Some b \<Rightarrow> b)"
  by (simp add: apply_update_def)

lemma apply_update_interrupt:
  "interrupt_requested (apply_update s u) = interrupt_requested s"
  by (simp add: apply_update_def)

lemma planning_keeps_error:
  assumes "step_count s \<noteq> 0" and "truthy_str (error_message s)" and "current_instructions s \<noteq> None"
  shows "\<exists>s'. graph_step e Planning w s = (w\<lparr>planner_calls := planner_calls w @ [(user_request s, step_count s)]\<rparr>,
            Inr (Some Execution, s'))
           \<and> truthy_str (error_message s') \<and> current_instructions s' \<noteq> None"
proof (cases "planner e (length (planner_calls w)) (user_request s) (step_count s)")
  case (Inl ex)
  let ?u = "no_update\<lparr>u_error_message := Some (''Planning failed: '' @ exn_str ex),
                       u_is_complete := Some True\<rparr>"
  have "graph_step e Planning w s =
          (w\<lparr>planner_calls := planner_calls w @ [(user_request s, step_count s)]\<rparr>,
            Inr (Some Execution, apply_update s ?u))"
    using Inl assms(1) by (simp add: planning_node_def Let_def)
  moreover have "truthy_str (error_message (apply_update s ?u))"
    by (simp add: apply_update_error truthy_str_def)
  moreover have "current_instructions (apply_update s ?u) \<noteq> None"
    using assms(3) by (simp add: apply_update_instructions no_update_def)
  ultimately show ?thesis by blast
next
  case (Inr ins)
  let ?u = "no_update\<lparr>u_current_instructions := Some ins,
                       u_messages := [SystemMessage, HumanMessage]\<rparr>"
  have "graph_step e Planning w s =
          (w\<lparr>planner_calls := planner_calls w @ [(user_request s, step_count s)]\<rparr>,
            Inr (Some Execution, apply_update s ?u))"
    using Inr assms(1) by (simp add: planning_node_def Let_def)
  moreover have "truthy_str (error_message (apply_update s ?u))"
    using assms(2) by (simp add: apply_update_error no_update_def)
  moreover have "current_instructions (apply_update s ?u) \<noteq> None"
    by (simp add: apply_update_instructions)
  ultimately show ?thesis by blast
qed

lemma execution_update_shape:
  "u_current_instructions (snd (execution_node e w s)) = None
   \<and> (u_error_message (snd (execution_node e w s)) = None
       \<or> (\<exists>m. u_error_message (snd (execution_node e w s)) = Some m \<and> m \<noteq> []))"
proof (cases "current_instructions s")
  case None
  then show ?thesis by (simp add: execution_node_def no_update_def)
next
  case (Some ins)
  show ?thesis
  proof (cases "steps ins = []")
    case True
    with Some show ?thesis by (simp add: execution_node_def no_update_def)
  next
    case False
    obtain w' r where h: "execute_steps e w s (steps ins) [] = (w', r)" by fastforce
    with Some False show ?thesis
      by (cases r) (simp_all add: execution_node_def no_update_def)
  qed
qed

lemma execution_keeps_error:
  assumes "truthy_str (error_message s)" and "current_instructions s \<noteq> None"
  shows "\<exists>s'. graph_step e Execution w s = (fst (execution_node e w s), Inr (Some Validation, s'))
           \<and> truthy_str (error_message s') \<and> current_instructions s' \<noteq> None"
proof -
  let ?u = "snd (execution_node e w s)"
  have g: "graph_step e Execution w s =
             (fst (execution_node e w s), Inr (Some Validation, apply_update s ?u))"
    by (simp add: case_prod_beta)
  from execution_update_shape [of e w s]
  have "truthy_str (error_message (apply_update s ?u))"
    using assms(1) by (auto simp add: apply_update_error truthy_str_def)
  moreover from execution_update_shape [of e w s]
  have "current_instructions (apply_update s ?u) \<noteq> None"
    using assms(2) by (simp add: apply_update_instructions)
  ultimately show ?thesis using g by blast
qed

lemma validation_ends_on_error:
  assumes "truthy_str (error_message s)" and "current_instructions s \<noteq> None"
  shows "\<exists>s'. graph_step e Validation w s = (w, Inr (Some Response, s'))
           \<and> truthy_str (error_message s')"
proof -
  from assms(2) obtain ins where ci: "current_instructions s = Some ins" by blast
  have "\<exists>u. validation_node s = Inr u
          \<and> (u_error_message u = None \<or> u_error_message u = Some ''Maximum steps exceeded'')"
    using ci by (simp add: validation_node_def no_update_def)
  then obtain u where u: "validation_node s = Inr u"
     "u_error_message u = None \<or> u_error_message u = Some ''Maximum steps exceeded''"
    by blast
  have t: "truthy_str (error_message (apply_update s u))"
    using u(2) assms(1) by (auto simp add: apply_update_error truthy_str_def)
  then have "should_continue (apply_update s u) \<noteq> ''continue''"
    by (simp add: should_continue_def)
  then have "graph_step e Validation w s = (w, Inr (Some Response, apply_update s u))"
    using u(1) by (simp add: Let_def)
  with t show ?thesis by blast
qed

lemma response_on_error:
  assumes "truthy_str (error_message s)"
  shows "\<exists>s'. graph_step e Response w s = (w, Inr (None, s'))
           \<and> is_complete s' \<and> truthy_str (error_message s')"
proof -
  let ?u = "no_update\<lparr>u_messages :=
               [AIMessage (''Task completed with error: '' @ the (error_message s))],
             u_is_complete := Some True\<rparr>"
  have "graph_step e Response w s = (w, Inr (None, apply_update s ?u))"
    using assms by (simp add: response_node_def)
  moreover have "is_complete (apply_update s ?u)" by (simp add: apply_update_complete)
  moreover have "truthy_str (error_message (apply_update s ?u))"
    using assms by (simp add: apply_update_error no_update_def)
  ultimately show ?thesis by blast
qed

subsection \<open>The interpreter\<close>

text \<open>
  Claim C1. \<^verbatim>\<open>process_command\<close> is meant to turn every failure into the returned flag
  \<open>False\<close>. A descriptor without the \<^verbatim>\<open>function\<close> field does not get that far: the lookup
  \<^verbatim>\<open>json_command['function']\<close> stands before the \<^verbatim>\<open>try\<close>, so the \<^verbatim>\<open>KeyError\<close> reaches the
  caller, nothing is printed and nothing is put on the status queue.
\<close>

theorem missing_function_raises_KeyError:
  "process_command e w (c\<lparr>fn := None\<rparr>) =
     (w, Inl (Exn ''KeyError'' (CHR 0x27 # ''function'' @ [CHR 0x27])))"
  by (simp add: process_command_def)

text \<open>With the field present the method does return, and a returned \<open>False\<close> comes with
  the five diagnostic lines naming the exception, the descriptor, the function name and
  the parameters.\<close>

lemma process_command_with_function_returns:
  assumes "fn c = Some f"
  shows "\<exists>w' b. process_command e w c = (w', Inr b)
           \<and> (\<not> b \<longrightarrow> (\<exists>ex. drop (length (stdout w') - 5) (stdout w') =
                  [ProblemExecuting ex, JsonReceived c, WhatWeExtracted,
                   ExtractedFunctionName f, ExtractedParameters (params_of c)]))"
proof -
  let ?w2 = "(print w (NowPerforming f (params_of c) (human_readable_justification c)))
               \<lparr>status_queue := status_queue w @ [human_readable_justification c]\<rparr>"
  obtain w3 r where h: "execute_function e ?w2 f (params_of c) = (w3, r)" by fastforce
  show ?thesis
    using assms h by (cases r) (auto simp add: process_command_def Let_def print_def)
qed

text \<open>
  Claim C8, as the code has it. When \<^verbatim>\<open>x\<close> or \<^verbatim>\<open>y\<close> is missing (or \<^verbatim>\<open>null\<close>) the click
  primitive is not invoked: after the warm-up the interpreter prints
  \<^verbatim>\<open>Invalid click parameters\<close> and \<^verbatim>\<open>process_command\<close> returns \<open>True\<close>. With both
  coordinates it invokes \<^verbatim>\<open>click(x, y, clicks=clicks)\<close>, \<^verbatim>\<open>clicks\<close> defaulting to 1.
\<close>

theorem click_requires_both_coordinates:
  assumes "hasattr e ''click''" and "fn c = Some function_name"
    and "clean_function_name function_name = ''click''"
    and "raises e (trace w) warm_up = None" and "raises e (trace w @ [warm_up]) settle = None"
  shows "(get (params_of c) ''x'' = VNone \<or> get (params_of c) ''y'' = VNone \<longrightarrow>
            snd (process_command e w c) = Inr True
          \<and> trace (fst (process_command e w c)) = trace w @ [warm_up, settle]
          \<and> stdout (fst (process_command e w c)) =
              stdout w @ [NowPerforming function_name (params_of c) (human_readable_justification c),
                          InvalidClickParameters (params_of c)])
       \<and> (get (params_of c) ''x'' \<noteq> VNone \<and> get (params_of c) ''y'' \<noteq> VNone \<longrightarrow>
            trace (fst (process_command e w c)) =
              trace w @ [warm_up, settle,
                         PyAutoGUI ''click'' [get (params_of c) ''x'', get (params_of c) ''y'']
                           [(''clicks'', get_default (params_of c) ''clicks'' (VInt 1))]])"
  using assms
  by (auto simp add: process_command_def execute_function_def call_pyautogui_def call_def
        print_def Let_def split: option.splits prod.splits)

theorem click_requires_both_coordinates_witness:
  "snd (process_command quiet_env world0 click_x_only) = Inr True
   \<and> trace (fst (process_command quiet_env world0 click_x_only)) = [warm_up, settle]
   \<and> trace (fst (process_command quiet_env world0 click_10_20)) =
       [warm_up, settle, PyAutoGUI ''click'' [VInt 10, VInt 20] [(''clicks'', VInt 1)]]"
proof -
  have h: "hasattr quiet_env ''click''" "clean_function_name ''click'' = ''click''"
     "raises quiet_env (trace world0) warm_up = None"
     "raises quiet_env (trace world0 @ [warm_up]) settle = None"
    by (simp_all add: quiet_env_def clean_function_name_def startswith_def)
  have a: "fn click_x_only = Some ''click''" "fn click_10_20 = Some ''click''"
    by (simp_all add: click_x_only_def click_10_20_def)
  show ?thesis
    using click_requires_both_coordinates [OF h(1) a(1) h(2) h(3) h(4)]
          click_requires_both_coordinates [OF h(1) a(2) h(2) h(3) h(4)]
    by (simp add: params_of_def get_def get_default_def click_x_only_def click_10_20_def world0_def)
qed

text \<open>The claim as written asks for a failure result; the descriptor
  \<^verbatim>\<open>{"function": "click", "parameters": {"x": 10}}\<close> is reported as a success.\<close>

theorem click_partial_counterexample:
  "process_command quiet_env world0 click_x_only =
     (world0\<lparr>trace := [warm_up, settle],
             stdout := [NowPerforming ''click'' [(''x'', VInt 10)] None,
                        InvalidClickParameters [(''x'', VInt 10)]],
             status_queue := [None]\<rparr>, Inr True)"
  by (simp add: interp_defs quiet_env_def world0_def click_x_only_def Let_def)

text \<open>
  Claim C6, as the code has it. In the interpreter a non-empty list under \<^verbatim>\<open>keys\<close> gives,
  after the warm-up, one \<^verbatim>\<open>press\<close> call per key in the order of the list, all with the
  same \<^verbatim>\<open>presses\<close> and \<^verbatim>\<open>interval\<close> (1 and 0.2 when not given); whenever the value
  selected by \<^verbatim>\<open>parameters.get('keys') or parameters.get('key')\<close> is not a list (a scalar
  under \<^verbatim>\<open>keys\<close>, or the value under \<^verbatim>\<open>key\<close> when \<^verbatim>\<open>keys\<close> is absent or false) there is
  exactly one \<^verbatim>\<open>press\<close> call, for that value; both as long as no call raises. The tool
  \<^verbatim>\<open>press_key\<close> of the graph surface sends a list as one \<^verbatim>\<open>hotkey\<close> call and any other
  key as one \<^verbatim>\<open>press\<close> call.
\<close>

theorem press_one_call_per_key:
  assumes "hasattr e ''press''" and "clean_function_name function_name = ''press''"
    and "\<forall>tr p. raises e tr p = None"
  shows "(get ps ''keys'' = VList keys \<and> keys \<noteq> [] \<longrightarrow>
            execute_function e w function_name ps =
              (w\<lparr>trace := trace w @ [warm_up, settle]
                   @ map (\<lambda>k. PyAutoGUI ''press'' [k]
                                 [(''presses'', get_default ps ''presses'' (VInt 1)),
                                  (''interval'', get_default ps ''interval'' (VFloat (1 / 5)))]) keys\<rparr>,
               None))
       \<and> ((has_key ps ''keys'' \<or> has_key ps ''key'')
            \<and> \<not> is_list (py_or (get ps ''keys'') (get ps ''key'')) \<longrightarrow>
            execute_function e w function_name ps =
              (w\<lparr>trace := trace w @ [warm_up, settle,
                     PyAutoGUI ''press'' [py_or (get ps ''keys'') (get ps ''key'')]
                       [(''presses'', get_default ps ''presses'' (VInt 1)),
                        (''interval'', get_default ps ''interval'' (VFloat (1 / 5)))]]\<rparr>,
               None))
       \<and> fst (press_key e w (VList keys) presses) =
            w\<lparr>trace := trace w @ [PyAutoGUI ''hotkey'' keys []]\<rparr>
       \<and> (\<not> is_list key \<longrightarrow>
            fst (press_key e w key presses) =
              w\<lparr>trace := trace w @ [PyAutoGUI ''press'' [key] [(''presses'', presses)]]\<rparr>)"
  using assms
  by (auto simp add: execute_function_def call_pyautogui_def call_def Let_def press_each_quiet
      py_or_def has_key_def get_def press_key_def split: option.splits sum.splits)

theorem press_one_call_per_key_witness:
  "execute_function quiet_env world0 ''pyautogui.press'' [(''keys'', VList [VStr ''a'', VStr ''b''])] =
     (world0\<lparr>trace := [warm_up, settle,
         PyAutoGUI ''press'' [VStr ''a''] [(''presses'', VInt 1), (''interval'', VFloat (1 / 5))],
         PyAutoGUI ''press'' [VStr ''b''] [(''presses'', VInt 1), (''interval'', VFloat (1 / 5))]]\<rparr>,
      None)
   \<and> execute_function quiet_env world0 ''pyautogui.press'' (params_of press_enter) =
     (world0\<lparr>trace := [warm_up, settle,
         PyAutoGUI ''press'' [VStr ''enter''] [(''presses'', VInt 1), (''interval'', VFloat (1 / 5))]]\<rparr>,
      None)"
proof -
  have h: "hasattr quiet_env ''press''" "clean_function_name ''pyautogui.press'' = ''press''"
     "\<forall>tr p. raises quiet_env tr p = None"
    by (simp_all add: quiet_env_def clean_function_name_def startswith_def)
  show ?thesis
    using press_one_call_per_key [OF h, of "[(''keys'', VList [VStr ''a'', VStr ''b''])]"
            "[VStr ''a'', VStr ''b'']" world0]
          press_one_call_per_key [OF h, of "params_of press_enter" "[]" world0]
    by (simp add: get_def get_default_def has_key_def py_or_def world0_def params_of_def
        press_enter_def)
qed

text \<open>On the graph surface the descriptor
  \<^verbatim>\<open>{"function": "press", "parameters": {"keys": ["a", "b"]}}\<close> is one \<^verbatim>\<open>hotkey("a", "b")\<close>
  call and no \<^verbatim>\<open>press\<close> call. In the interpreter an empty list under \<^verbatim>\<open>keys\<close> is false
  for \<^verbatim>\<open>or\<close>, so the value under \<^verbatim>\<open>key\<close> is taken, here \<^verbatim>\<open>None\<close>, and one \<^verbatim>\<open>press\<close> call is
  made for no key at all.\<close>

theorem press_keys_counterexample:
  "execute_step quiet_env world0 (name_of press_a_b) (params_of press_a_b) =
     (world0\<lparr>trace := [PyAutoGUI ''hotkey'' [VStr ''a'', VStr ''b''] []]\<rparr>, ''Pressed hotkey: a+b'')
   \<and> execute_function quiet_env world0 ''press'' [(''keys'', VList [])] =
     (world0\<lparr>trace := [warm_up, settle,
         PyAutoGUI ''press'' [VNone] [(''presses'', VInt 1), (''interval'', VFloat (1 / 5))]]\<rparr>,
      None)"
  by (simp add: execute_step_def strip_pyautogui_def startswith_def tool_mapping_def
      create_pyautogui_tools_def map_parameters_def has_key_def get_def get_default_def
      convert_def quiet_env_def quiet_coerce_def press_key_def call_def join_plus_def py_str_def
      world0_def Let_def press_a_b_def name_of_def params_of_def execute_function_def
      call_pyautogui_def clean_function_name_def py_or_def)

subsection \<open>Failures of single descriptors\<close>

text \<open>
  Claim C4, as the code has it. On the graph surface, with the interrupt flag not set,
  the loop of \<^verbatim>\<open>execution_node\<close> is dispatch in order: every descriptor of the plan is
  dispatched, in the world its predecessors left, whatever their outputs were, and the
  entry recorded for it holds its output and the flag of the \<^verbatim>\<open>failed\<close> test on it. The
  entries stay in the state, but they are not passed to the planner: the planning call
  has the request and the step count as its only arguments, and neither what it does nor
  the plan it returns depends on \<^verbatim>\<open>execution_results\<close>. In the interpreter, once
  \<^verbatim>\<open>process_commands\<close> has returned \<open>False\<close> for a list of commands, no command behind
  them is dispatched.
\<close>

theorem every_step_is_dispatched:
  assumes "\<not> interrupt_requested s"
  shows "execute_steps e w s cs [] =
           (fst (dispatch_in_order e w cs), Some (snd (dispatch_in_order e w cs)))
       \<and> length (snd (dispatch_in_order e w cs)) = length cs
       \<and> (\<forall>i<length cs.
             snd (dispatch_in_order e w cs) ! i =
               recorded (cs ! i)
                 (snd (execute_step e (fst (dispatch_in_order e w (take i cs)))
                         (name_of (cs ! i)) (params_of (cs ! i))))
           \<and> fst (dispatch_in_order e w (take (Suc i) cs)) =
               fst (execute_step e (fst (dispatch_in_order e w (take i cs)))
                      (name_of (cs ! i)) (params_of (cs ! i))))
       \<and> (\<forall>r\<in>set (snd (dispatch_in_order e w cs)).
             r_success r = (\<not> contains (lower (r_result r)) ''failed''))
       \<and> (process_commands e w xs = (w1, Inr False) \<longrightarrow>
            process_commands e w (xs @ rest) = (w1, Inr False))
       \<and> fst (planning_node e w (s\<lparr>execution_results := rs\<rparr>)) = fst (planning_node e w s)
       \<and> (\<forall>w2 u. planning_node e w s = (w2, Inr u) \<longrightarrow>
             planner_calls w2 = planner_calls w @ [(user_request s, step_count s)]
           \<and> (\<exists>u'. snd (planning_node e w (s\<lparr>execution_results := rs\<rparr>)) = Inr u'
                    \<and> u_current_instructions u' = u_current_instructions u))"
proof -
  have a: "execute_steps e w s cs [] =
           (fst (dispatch_in_order e w cs), Some (snd (dispatch_in_order e w cs)))"
    using execute_steps_dispatch [OF assms, of e w cs "[]"] by simp
  have b: "process_commands e w xs = (w1, Inr False) \<longrightarrow>
            process_commands e w (xs @ rest) = (w1, Inr False)"
    using process_commands_False_append by blast
  have c: "planning_node e w (s\<lparr>execution_results := rs\<rparr>) = planning_node e w s"
    by (simp add: planning_node_def Let_def split: prod.splits sum.splits)
  have d: "\<forall>w2 u. planning_node e w s = (w2, Inr u) \<longrightarrow>
             planner_calls w2 = planner_calls w @ [(user_request s, step_count s)]"
  proof (intro allI impI)
    fix w2 u
    assume h: "planning_node e w s = (w2, Inr u)"
    obtain w1 r where i: "(if step_count s = 0 then invoke e w (create_pyautogui_tools ! 4) []
            else (w, Inr [])) = (w1, r)" by fastforce
    have "planner_calls w1 = planner_calls w"
      using i only_trace_fields [OF only_trace_invoke [of w e "create_pyautogui_tools ! 4" "[]"]]
      by (cases "step_count s = 0") auto
    with h i show "planner_calls w2 = planner_calls w @ [(user_request s, step_count s)]"
      by (cases r) (auto simp add: planning_node_def Let_def split: sum.splits)
  qed
  from a b c d show ?thesis
    using length_dispatch_in_order [of e w cs] dispatch_in_order_nth [of _ cs e w]
      dispatch_in_order_success [of e w cs]
    by simp
qed

theorem every_step_is_dispatched_witness:
  "execute_steps failing_click_env world0 (initial_state failing_click_env ''go'' 3)
       [click_10_20, write_hi] [] =
     (world0\<lparr>trace := [PyAutoGUI ''click'' [VInt 10, VInt 20] [(''clicks'', VInt 1)],
                        PyAutoGUI ''write'' [VStr ''hi''] [(''interval'', VFloat (1 / 20))]]\<rparr>,
      Some [failed_click,
            \<lparr>r_function = ''write'', r_parameters = [(''text'', VStr ''hi'')],
             r_justification = ''typing'', r_result = ''Typed: hi'', r_success = True\<rparr>])"
proof -
  have a: "\<not> interrupt_requested (initial_state failing_click_env ''go'' 3)"
    by (simp add: initial_state_def)
  have b: "dispatch_in_order failing_click_env world0 [click_10_20, write_hi] =
     (world0\<lparr>trace := [PyAutoGUI ''click'' [VInt 10, VInt 20] [(''clicks'', VInt 1)],
                        PyAutoGUI ''write'' [VStr ''hi''] [(''interval'', VFloat (1 / 20))]]\<rparr>,
      [failed_click,
       \<lparr>r_function = ''write'', r_parameters = [(''text'', VStr ''hi'')],
        r_justification = ''typing'', r_result = ''Typed: hi'', r_success = True\<rparr>])"
    by (simp add: node_defs recorded_def failing_click_env_def quiet_defs click_10_20_def
        write_hi_def failed_click_def Let_def)
  show ?thesis
    using every_step_is_dispatched [OF a, of failing_click_env world0 "[click_10_20, write_hi]"]
    by (simp only: b fst_conv snd_conv)
qed

text \<open>A click that raises, followed by a \<^verbatim>\<open>write\<close>: the interpreter returns \<open>False\<close> after
  the click, and the trace holds no \<^verbatim>\<open>write\<close> call. On the graph surface a descriptor with
  an unknown name is recorded, but not as a failure; and a run of two rounds whose clicks
  fail calls the planner with the request and the step count, the failed entry staying
  in the state.\<close>

theorem process_commands_stops_counterexample:
  "process_commands failing_click_env world0 [click_10_20, write_hi] =
     (world0\<lparr>trace := [warm_up, settle, PyAutoGUI ''click'' [VInt 10, VInt 20] [(''clicks'', VInt 1)]],
             stdout := [NowPerforming ''click'' [(''x'', VInt 10), (''y'', VInt 20)] None,
                        Clicking (VInt 10) (VInt 20) (VInt 1),
                        ProblemExecuting (Exn ''FailSafeException'' ''fail-safe triggered''),
                        JsonReceived click_10_20, WhatWeExtracted, ExtractedFunctionName ''click'',
                        ExtractedParameters [(''x'', VInt 10), (''y'', VInt 20)]],
             status_queue := [None]\<rparr>, Inr False)
   \<and> map r_success (the (snd (execute_steps quiet_env world0 (initial_state quiet_env ''go'' 3)
          [unknown_fn] []))) = [True]
   \<and> (\<exists>w s. execute_request click_plan_env 25 world0 ''go'' 2 = (w, FinalState s)
          \<and> planner_calls w = [(''go'', 0), (''go'', 1)]
          \<and> step_count s = 2
          \<and> execution_results s = [failed_click])"
  by (simp add: interp_defs failing_click_env_def quiet_env_def world0_def click_10_20_def Let_def
      node_defs quiet_defs initial_state_def unknown_fn_def graph_defs run_numeral
      click_plan_env_def failed_click_def)

text \<open>
  Claim C2, as the code has it. A name that is not in \<^verbatim>\<open>tool_mapping\<close> after the
  \<^verbatim>\<open>pyautogui.\<close> prefix is removed makes \<^verbatim>\<open>_execute_step\<close> return the string
  \<^verbatim>\<open>Unknown function: <name>\<close> without raising and without invoking a tool; the entry
  recorded for it carries the flag of the \<^verbatim>\<open>failed\<close> test on that string, so it counts as
  a success unless the name itself contains \<^verbatim>\<open>failed\<close>. In the interpreter a name for
  which \<^verbatim>\<open>pyautogui\<close> has no attribute (and which is not \<^verbatim>\<open>sleep\<close>) is reported by a
  printed line after the warm-up, and \<^verbatim>\<open>process_command\<close> returns \<open>True\<close>.
\<close>

theorem unknown_function_is_reported:
  assumes "map_of tool_mapping (strip_pyautogui (name_of c)) = None"
  shows "execute_step e w (name_of c) (params_of c) =
           (w, ''Unknown function: '' @ strip_pyautogui (name_of c))
       \<and> (\<not> interrupt_requested s \<longrightarrow>
            execute_steps e w s [c] [] =
              (w,
               Some [\<lparr>r_function = name_of c, r_parameters = params_of c,
                      r_justification = justification_of c,
                      r_result = ''Unknown function: '' @ strip_pyautogui (name_of c),
                      r_success = (\<not> contains (lower (''Unknown function: '' @ strip_pyautogui (name_of c)))
                                         ''failed'')\<rparr>]))
       \<and> (fn c = Some function_name \<and> \<not> hasattr e (clean_function_name function_name)
            \<and> clean_function_name function_name \<noteq> ''sleep''
            \<and> raises e (trace w) warm_up = None \<and> raises e (trace w @ [warm_up]) settle = None \<longrightarrow>
            snd (process_command e w c) = Inr True
          \<and> trace (fst (process_command e w c)) = trace w @ [warm_up, settle]
          \<and> stdout (fst (process_command e w c)) =
              stdout w @ [NowPerforming function_name (params_of c) (human_readable_justification c),
                          NoSuchFunction (clean_function_name function_name)])"
  using assms
  by (auto simp add: execute_step_def Let_def process_command_def execute_function_def call_def print_def)

theorem unknown_function_is_reported_witness:
  "execute_step quiet_env world0 (name_of unknown_fn) (params_of unknown_fn) =
     (world0, ''Unknown function: unknown_fn'')
   \<and> snd (process_command quiet_env world0 unknown_fn) = Inr True"
proof -
  have a: "map_of tool_mapping (strip_pyautogui (name_of unknown_fn)) = None"
    by (simp add: tool_mapping_def strip_pyautogui_def startswith_def name_of_def unknown_fn_def)
  have b: "fn unknown_fn = Some ''unknown_fn''"
    "\<not> hasattr quiet_env (clean_function_name ''unknown_fn'')"
    "clean_function_name ''unknown_fn'' \<noteq> ''sleep''"
    "raises quiet_env (trace world0) warm_up = None"
    "raises quiet_env (trace world0 @ [warm_up]) settle = None"
    by (simp_all add: unknown_fn_def quiet_env_def clean_function_name_def startswith_def)
  show ?thesis
    using unknown_function_is_reported [OF a, of quiet_env world0 undefined "''unknown_fn''"] b
    by (simp add: strip_pyautogui_def startswith_def name_of_def unknown_fn_def)
qed

text \<open>The descriptor \<^verbatim>\<open>{"function": "unknown_fn"}\<close> is recorded with \<^verbatim>\<open>success\<close> true.\<close>

theorem unknown_function_counterexample:
  "execute_steps quiet_env world0 (initial_state quiet_env ''go'' 3) [unknown_fn] [] =
     (world0,
      Some [\<lparr>r_function = ''unknown_fn'', r_parameters = [], r_justification = [],
             r_result = ''Unknown function: unknown_fn'', r_success = True\<rparr>])"
  by (simp add: node_defs quiet_defs initial_state_def unknown_fn_def Let_def)


subsection \<open>The success flag of the graph surface\<close>

text \<open>
  Claim C10. The flag \<^verbatim>\<open>success\<close> of a recorded entry is computed from the output string
  alone: it is false exactly when the lower-cased output contains \<^verbatim>\<open>failed\<close>. So a step
  whose primitive call succeeds can be recorded as a failure (\<^verbatim>\<open>type_text\<close> of the text
  \<^verbatim>\<open>failed\<close>, echoed in \<^verbatim>\<open>Typed: failed\<close>), and a step that executes no primitive can be
  recorded as a success (\<^verbatim>\<open>Unknown function: unknown_fn\<close>).
\<close>

theorem success_is_failed_substring_test:
  "(\<forall>e w s cs w' rs. execute_steps e w s cs [] = (w', Some rs) \<longrightarrow>
       (\<forall>r\<in>set rs. r_success r = (\<not> contains (lower (r_result r)) ''failed'')))
   \<and> (\<exists>e w s c w' r. execute_steps e w s [c] [] = (w', Some [r])
         \<and> trace w' = trace w @ [PyAutoGUI ''write'' [VStr ''failed''] [(''interval'', VFloat (1 / 20))]]
         \<and> raises e (trace w) (PyAutoGUI ''write'' [VStr ''failed''] [(''interval'', VFloat (1 / 20))]) = None
         \<and> r_result r = ''Typed: failed'' \<and> \<not> r_success r)
   \<and> (\<exists>e w s c w' r. execute_steps e w s [c] [] = (w', Some [r])
         \<and> trace w' = trace w
         \<and> r_result r = ''Unknown function: unknown_fn'' \<and> r_success r)"
proof (intro conjI allI impI)
  fix e w s cs w' rs
  assume "execute_steps e w s cs [] = (w', Some rs)"
  from execute_steps_Some [OF this]
  show "\<forall>r\<in>set rs. r_success r = (\<not> contains (lower (r_result r)) ''failed'')" by auto
next
  let ?p = "PyAutoGUI ''write'' [VStr ''failed''] [(''interval'', VFloat (1 / 20))]"
  let ?w = "world0\<lparr>trace := [?p]\<rparr>"
  let ?r = "\<lparr>r_function = ''type_text'', r_parameters = [(''text'', VStr ''failed'')],
             r_justification = [], r_result = ''Typed: failed'', r_success = False\<rparr>"
  have ev: "execute_steps quiet_env world0 (initial_state quiet_env ''go'' 3) [type_failed] [] =
     (?w, Some [?r])"
    by (simp add: node_defs quiet_defs initial_state_def type_failed_def Let_def)
  have q: "\<And>tr. raises quiet_env tr ?p = None" "trace world0 = []"
    by (simp_all add: quiet_env_def world0_def)
  show "\<exists>e w s c w' r. execute_steps e w s [c] [] = (w', Some [r])
         \<and> trace w' = trace w @ [?p] \<and> raises e (trace w) ?p = None
         \<and> r_result r = ''Typed: failed'' \<and> \<not> r_success r"
    by (rule exI [of _ quiet_env], rule exI [of _ world0],
        rule exI [of _ "initial_state quiet_env ''go'' 3"], rule exI [of _ type_failed],
        rule exI [of _ ?w], rule exI [of _ ?r]) (simp only: ev, simp add: q)
next
  let ?w = "world0"
  let ?r = "\<lparr>r_function = ''unknown_fn'', r_parameters = [], r_justification = [],
             r_result = ''Unknown function: unknown_fn'', r_success = True\<rparr>"
  have ev: "execute_steps quiet_env world0 (initial_state quiet_env ''go'' 3) [unknown_fn] [] =
     (?w, Some [?r])"
    by (simp add: node_defs quiet_defs initial_state_def unknown_fn_def Let_def)
  show "\<exists>e w s c w' r. execute_steps e w s [c] [] = (w', Some [r])
         \<and> trace w' = trace w
         \<and> r_result r = ''Unknown function: unknown_fn'' \<and> r_success r"
    by (rule exI [of _ quiet_env], rule exI [of _ world0],
        rule exI [of _ "initial_state quiet_env ''go'' 3"], rule exI [of _ unknown_fn],
        rule exI [of _ ?w], rule exI [of _ ?r]) (simp only: ev, simp)
qed

theorem success_is_failed_substring_test_witness:
  "map r_success (the (snd (execute_steps quiet_env world0 (initial_state quiet_env ''go'' 3)
       [type_failed, unknown_fn] []))) = [False, True]"
proof -
  have ev: "execute_steps quiet_env world0 (initial_state quiet_env ''go'' 3) [type_failed, unknown_fn] [] =
     (world0\<lparr>trace := [PyAutoGUI ''write'' [VStr ''failed''] [(''interval'', VFloat (1 / 20))]]\<rparr>,
      Some [\<lparr>r_function = ''type_text'', r_parameters = [(''text'', VStr ''failed'')],
             r_justification = [], r_result = ''Typed: failed'',
             r_success = (\<not> contains (lower ''Typed: failed'') ''failed'')\<rparr>,
            \<lparr>r_function = ''unknown_fn'', r_parameters = [], r_justification = [],
             r_result = ''Unknown function: unknown_fn'',
             r_success = (\<not> contains (lower ''Unknown function: unknown_fn'') ''failed'')\<rparr>])"
    by (simp add: node_defs quiet_defs initial_state_def type_failed_def unknown_fn_def Let_def)
  from success_is_failed_substring_test
  have "\<forall>r\<in>set (the (snd (execute_steps quiet_env world0 (initial_state quiet_env ''go'' 3)
       [type_failed, unknown_fn] []))). r_success r = (\<not> contains (lower (r_result r)) ''failed'')"
    using ev by (metis option.sel snd_conv)
  then show ?thesis
    unfolding ev by (simp add: lower_def lower_char_def)
qed


subsection \<open>The control loop\<close>

text \<open>
  Claim C9, as the code has it. \<^verbatim>\<open>execution_results\<close> has no reducer, so the list a
  completed round returns replaces the state's list: after the round the state holds
  exactly the entries of that round's steps, in dispatch order, whatever it held before.
  No other node returns the key.
\<close>

theorem execution_results_hold_last_round:
  assumes "current_instructions s = Some ins" and "steps ins \<noteq> []"
    and "execute_steps e w s (steps ins) [] = (w', Some rs)"
  shows "execution_results (apply_update s (snd (execution_node e w s))) = rs
       \<and> length rs = length (steps ins)
       \<and> map r_function rs = map name_of (steps ins)
       \<and> execution_results (apply_update s (snd (screenshot_node e w s))) = execution_results s
       \<and> (\<forall>u. validation_node s = Inr u \<longrightarrow>
             execution_results (apply_update s u) = execution_results s)
       \<and> (\<forall>w1 u. planning_node e w s = (w1, Inr u) \<longrightarrow>
             execution_results (apply_update s u) = execution_results s)
       \<and> (\<forall>u. response_node s = Inr u \<longrightarrow>
             execution_results (apply_update s u) = execution_results s)"
proof -
  from execute_steps_Some [OF assms(3)]
  have a: "length rs = length (steps ins)" "map r_function rs = map name_of (steps ins)" by auto
  have b: "execution_results (apply_update s (snd (execution_node e w s))) = rs"
    using assms by (simp add: execution_node_def apply_update_def no_update_def)
  have c: "execution_results (apply_update s (snd (screenshot_node e w s))) = execution_results s"
    by (simp add: screenshot_node_def apply_update_def no_update_def split: prod.splits sum.splits)
  have d: "\<forall>u. validation_node s = Inr u \<longrightarrow>
             execution_results (apply_update s u) = execution_results s"
    by (auto simp add: validation_node_def apply_update_def no_update_def
        split: option.splits if_splits)
  have f: "\<forall>w1 u. planning_node e w s = (w1, Inr u) \<longrightarrow>
             execution_results (apply_update s u) = execution_results s"
    by (auto simp add: planning_node_def apply_update_def no_update_def Let_def
        split: option.splits if_splits prod.splits sum.splits)
  have g: "\<forall>u. response_node s = Inr u \<longrightarrow>
             execution_results (apply_update s u) = execution_results s"
    by (auto simp add: response_node_def apply_update_def no_update_def
        split: option.splits if_splits)
  from a b c d f g show ?thesis by blast
qed

theorem execution_results_hold_last_round_witness:
  "map r_function (execution_results (apply_update after_round_one
        (snd (execution_node two_round_env world0 after_round_one)))) = [''press'']"
proof -
  let ?rs = "[\<lparr>r_function = ''press'', r_parameters = [(''key'', VStr ''a'')],
               r_justification = ''press a'', r_result = ''Pressed key: a (1 times)'',
               r_success = True\<rparr>]"
  let ?w = "world0\<lparr>trace := [PyAutoGUI ''press'' [VStr ''a''] [(''presses'', VInt 1)]]\<rparr>"
  have a: "current_instructions after_round_one = Some \<lparr>steps = [press_a], done_msg = None\<rparr>"
          "steps \<lparr>steps = [press_a], done_msg = None\<rparr> \<noteq> []"
    by (simp_all add: after_round_one_def)
  have b: "execute_steps two_round_env world0 after_round_one
             (steps \<lparr>steps = [press_a], done_msg = None\<rparr>) [] = (?w, Some ?rs)"
    by (simp add: node_defs quiet_defs two_round_env_def after_round_one_def initial_state_def
        press_a_def Let_def)
  show ?thesis
    using execution_results_hold_last_round [OF a b] by simp
qed

text \<open>Two completed rounds, a \<^verbatim>\<open>write\<close> and then a \<^verbatim>\<open>press\<close>: both were dispatched,
  and the final state holds the entry of the \<^verbatim>\<open>press\<close> only.\<close>

theorem results_overwritten_counterexample:
  "\<exists>w s. execute_request two_round_env 25 world0 ''go'' 2 = (w, FinalState s)
     \<and> step_count s = 2
     \<and> trace w = [TimeSleep (VFloat 1),
                   PyAutoGUI ''write'' [VStr ''hi''] [(''interval'', VFloat (1 / 20))],
                   TimeSleep (VFloat 1),
                   PyAutoGUI ''press'' [VStr ''a''] [(''presses'', VInt 1)]]
     \<and> map r_function (execution_results s) = [''press'']"
  by (simp add: graph_defs run_numeral node_defs quiet_defs two_round_env_def write_hi_def press_a_def Let_def)

text \<open>
  The interrupt flag. The execution node reads \<^verbatim>\<open>interrupt_requested\<close> from the state it is
  called with. No node returns that key, so a node execution leaves the flag as it was;
  the initial state has it false; hence it is false in every state a run reaches. Called
  with the flag set and a plan that has steps, the node dispatches nothing: it returns
  the error \<^verbatim>\<open>Execution interrupted by user\<close> with \<^verbatim>\<open>is_complete\<close>, without
  \<^verbatim>\<open>execution_results\<close>, and the world is unchanged.
\<close>

theorem interrupt_flag_is_read_from_the_state:
  "(interrupt_requested s \<and> current_instructions s = Some ins \<and> steps ins \<noteq> [] \<longrightarrow>
      execution_node e w s =
        (w, no_update\<lparr>u_error_message := Some ''Execution interrupted by user'',
                      u_is_complete := Some True\<rparr>))
   \<and> interrupt_requested (apply_update s u) = interrupt_requested s
   \<and> (after_steps e k Planning w0 (initial_state e request limit) = Some (n, w', s') \<longrightarrow>
        \<not> interrupt_requested s')"
proof -
  have a: "interrupt_requested s \<and> current_instructions s = Some ins \<and> steps ins \<noteq> [] \<longrightarrow>
      execution_node e w s =
        (w, no_update\<lparr>u_error_message := Some ''Execution interrupted by user'',
                      u_is_complete := Some True\<rparr>)"
    by (auto simp add: execution_node_def execute_steps_interrupted)
  have step: "interrupt_requested t' = interrupt_requested t"
    if "graph_step e m v t = (v', Inr (Some m', t'))" for m v t v' m' t'
    using that
    by (cases m)
       (auto simp add: apply_update_interrupt Let_def split: prod.splits sum.splits)
  have inv: "interrupt_requested t' = interrupt_requested t"
    if "after_steps e j m v t = Some (m', v', t')" for j m v t m' v' t'
    using that
  proof (induction j arbitrary: m v t)
    case 0
    then show ?case by simp
  next
    case (Suc j)
    obtain v1 r where g: "graph_step e m v t = (v1, r)" by fastforce
    from Suc.prems g obtain m1 t1 where r: "r = Inr (Some m1, t1)"
      by (auto split: sum.splits option.splits)
    from Suc.prems g r have "after_steps e j m1 v1 t1 = Some (m', v', t')" by simp
    from Suc.IH [OF this] step [of m v t v1 m1 t1] g r show ?case by simp
  qed
  have b: "after_steps e k Planning w0 (initial_state e request limit) = Some (n, w', s') \<longrightarrow>
        \<not> interrupt_requested s'"
    using inv [of k Planning w0 "initial_state e request limit" n w' s']
    by (auto simp add: initial_state_def)
  from a b show ?thesis by (simp add: apply_update_interrupt)
qed

theorem interrupt_flag_is_read_from_the_state_witness:
  "execution_node quiet_env world0 (after_round_one\<lparr>interrupt_requested := True\<rparr>) =
     (world0, no_update\<lparr>u_error_message := Some ''Execution interrupted by user'',
                        u_is_complete := Some True\<rparr>)"
proof -
  have a: "interrupt_requested (after_round_one\<lparr>interrupt_requested := True\<rparr>)"
    "current_instructions (after_round_one\<lparr>interrupt_requested := True\<rparr>)
       = Some \<lparr>steps = [press_a], done_msg = None\<rparr>"
    "steps \<lparr>steps = [press_a], done_msg = None\<rparr> \<noteq> []"
    by (simp_all add: after_round_one_def)
  show ?thesis
    using interrupt_flag_is_read_from_the_state
      [of "after_round_one\<lparr>interrupt_requested := True\<rparr>" "\<lparr>steps = [press_a], done_msg = None\<rparr>"
          quiet_env world0] a
    by simp
qed


text \<open>
  Claim C5, as the code has it. A run with \<^verbatim>\<open>max_steps=3\<close> in which the planner always
  answers with a plan of at least one step and never with a \<^verbatim>\<open>done\<close> message, and the
  tool invoked for the screenshot (\<^verbatim>\<open>self.tools[4]\<close>, whose primitive is
  \<^verbatim>\<open>time.sleep(1.0)\<close>) does not raise: whenever the recursion limit allows the twelve node
  executions of three rounds (the library's default is 25), the run ends with a final
  state after exactly three rounds and three planning calls, with the error
  \<^verbatim>\<open>Maximum steps exceeded\<close> and one message of the assistant, which reports it. (The
  flag \<^verbatim>\<open>interrupt_requested\<close> is false in the initial state and no node changes it.)
\<close>

theorem max_steps_three_rounds:
  assumes P: "\<forall>n req k. \<exists>ins. planner e n req k = Inr ins \<and> steps ins \<noteq> [] \<and> \<not> truthy_str (done_msg ins)"
    and S: "\<forall>tr. raises e tr (TimeSleep (VFloat 1)) = None"
  shows "\<exists>w' s'. execute_request e (12 + k) w request 3 = (w', FinalState s')
           \<and> step_count s' = 3
           \<and> planner_calls w' = planner_calls w @ [(request, 0), (request, 1), (request, 2)]
           \<and> is_complete s' \<and> error_message s' = Some ''Maximum steps exceeded''
           \<and> filter is_ai (messages s') =
               [AIMessage ''Task completed with error: Maximum steps exceeded'']"
proof -
  let ?s0 = "initial_state e request 3"
  have k: "12 + k = Suc (Suc (Suc (Suc (Suc (Suc (Suc (Suc (Suc (Suc (Suc (Suc k)))))))))))"
    by simp
  have s0: "\<not> interrupt_requested ?s0" "\<not> truthy_str (error_message ?s0)"
    "step_count ?s0 = 0" "max_steps ?s0 = 3" "messages ?s0 = []" "user_request ?s0 = request"
    by (simp_all add: initial_state_def truthy_str_def)
  from full_round [OF P S s0(1,2), of "Suc (Suc (Suc (Suc (Suc (Suc (Suc (Suc k)))))))" w] s0
  obtain w1 s1 where
    r1: "run e (12 + k) Planning w ?s0 = run e (Suc (Suc (Suc (Suc (Suc (Suc (Suc (Suc k)))))))) Planning w1 s1"
      "planner_calls w1 = planner_calls w @ [(request, 0)]" "step_count s1 = 1" "max_steps s1 = 3"
      "\<not> interrupt_requested s1" "\<not> truthy_str (error_message s1)"
      "messages s1 = [SystemMessage, HumanMessage]" "user_request s1 = request"
    unfolding k by auto
  from full_round [OF P S r1(5,6), of "Suc (Suc (Suc (Suc k)))" w1] r1
  obtain w2 s2 where
    r2: "run e (Suc (Suc (Suc (Suc (Suc (Suc (Suc (Suc k)))))))) Planning w1 s1 = run e (Suc (Suc (Suc (Suc k)))) Planning w2 s2"
      "planner_calls w2 = planner_calls w @ [(request, 0), (request, 1)]"
      "step_count s2 = 2" "max_steps s2 = 3"
      "\<not> interrupt_requested s2"
      "messages s2 = [SystemMessage, HumanMessage, SystemMessage, HumanMessage]"
      "user_request s2 = request"
    by auto
  from last_round [OF P S r2(5), of k w2] r2
  obtain w3 s3 where
    r3: "run e (Suc (Suc (Suc (Suc k)))) Planning w2 s2 = (w3, Inr s3)"
      "planner_calls w3 = planner_calls w @ [(request, 0), (request, 1), (request, 2)]"
      "step_count s3 = 3" "is_complete s3"
      "error_message s3 = Some ''Maximum steps exceeded''"
      "messages s3 = [SystemMessage, HumanMessage, SystemMessage, HumanMessage,
          SystemMessage, HumanMessage, AIMessage ''Task completed with error: Maximum steps exceeded'']"
    by auto
  have "execute_request e (12 + k) w request 3 = (w3, FinalState s3)"
    by (simp only: execute_request_def r1(1) r2(1) r3(1)) simp
  with r3 show ?thesis by (intro exI [of _ w3] exI [of _ s3]) simp
qed

theorem max_steps_three_rounds_witness:
  "\<exists>w' s'. execute_request quiet_env 25 world0 ''go'' 3 = (w', FinalState s')
           \<and> step_count s' = 3 \<and> planner_calls w' = [(''go'', 0), (''go'', 1), (''go'', 2)]
           \<and> is_complete s' \<and> error_message s' = Some ''Maximum steps exceeded''
           \<and> filter is_ai (messages s') =
               [AIMessage ''Task completed with error: Maximum steps exceeded'']"
proof -
  have a: "\<forall>n req k. \<exists>ins. planner quiet_env n req k = Inr ins \<and> steps ins \<noteq> [] \<and> \<not> truthy_str (done_msg ins)"
    "\<forall>tr. raises quiet_env tr (TimeSleep (VFloat 1)) = None"
    by (simp_all add: quiet_env_def truthy_str_def)
  show ?thesis
    using max_steps_three_rounds [OF a, of 13 world0 "''go''"] by (simp add: world0_def)
qed

text \<open>A planner that never answers with a \<^verbatim>\<open>done\<close> message but whose plan has no steps:
  nothing raises and nobody interrupts, and the run ends after one planning call, in its
  first round, with \<^verbatim>\<open>step_count\<close> still 0 and the error \<^verbatim>\<open>No instructions to execute\<close>.\<close>

theorem empty_plan_counterexample:
  "\<exists>w s. execute_request empty_plan_env 25 world0 ''go'' 3 = (w, FinalState s)
     \<and> planner_calls w = [(''go'', 0)]
     \<and> step_count s = 0
     \<and> error_message s = Some ''No instructions to execute''
     \<and> filter is_ai (messages s) =
          [AIMessage ''Task completed with error: No instructions to execute'']"
  by (simp add: graph_defs run_numeral create_pyautogui_tools_def sleep_tool_def call_def
      py_str_def empty_plan_env_def quiet_defs Let_def)

text \<open>
  Claim C7, as the code has it. When the tool invoked by \<^verbatim>\<open>screenshot_node\<close> raises, the
  node returns only \<^verbatim>\<open>error_message\<close>: the state then has the error set while
  \<^verbatim>\<open>is_complete\<close> is still false. The edge to planning is unconditional, so one more plan
  is requested and the execution node runs once more; the validation that follows routes
  to the response node, and the run ends with \<^verbatim>\<open>is_complete\<close> true and the error set.
\<close>

theorem screenshot_failure_ends_at_next_validation:
  assumes f: "invoke e w (create_pyautogui_tools ! 4) [] = (w1, Inl ex)"
    and ci: "current_instructions s \<noteq> None" and sc: "step_count s \<noteq> 0"
    and nc: "\<not> is_complete s"
  shows "graph_step e Screenshot w s =
           (w1, Inr (Some Planning, s\<lparr>error_message := Some (''Screenshot failed: '' @ exn_str ex)\<rparr>))
       \<and> \<not> is_complete (s\<lparr>error_message := Some (''Screenshot failed: '' @ exn_str ex)\<rparr>)
       \<and> (\<exists>s2 w3 s3 final.
             graph_step e Planning w1 (s\<lparr>error_message := Some (''Screenshot failed: '' @ exn_str ex)\<rparr>)
               = (w1\<lparr>planner_calls := planner_calls w1 @ [(user_request s, step_count s)]\<rparr>, Inr (Some Execution, s2))
           \<and> graph_step e Execution (w1\<lparr>planner_calls := planner_calls w1 @ [(user_request s, step_count s)]\<rparr>) s2
               = (w3, Inr (Some Validation, s3))
           \<and> w3 = fst (execution_node e (w1\<lparr>planner_calls := planner_calls w1 @ [(user_request s, step_count s)]\<rparr>) s2)
           \<and> run e (Suc (Suc (Suc (Suc (Suc k))))) Screenshot w s = (w3, Inr final)
           \<and> is_complete final \<and> truthy_str (error_message final))"
proof -
  let ?s1 = "s\<lparr>error_message := Some (''Screenshot failed: '' @ exn_str ex)\<rparr>"
  let ?w2 = "w1\<lparr>planner_calls := planner_calls w1 @ [(user_request s, step_count s)]\<rparr>"
  have g0: "graph_step e Screenshot w s = (w1, Inr (Some Planning, ?s1))"
    using f by (simp add: screenshot_node_def apply_update_def no_update_def)
  have e1: "truthy_str (error_message ?s1)" "current_instructions ?s1 \<noteq> None" "step_count ?s1 \<noteq> 0"
    using ci sc by (simp_all add: truthy_str_def)
  from planning_keeps_error [OF e1(3) e1(1) e1(2), of e w1] obtain s2 where
    g1: "graph_step e Planning w1 ?s1 = (?w2, Inr (Some Execution, s2))"
      and e2: "truthy_str (error_message s2)" "current_instructions s2 \<noteq> None"
    by auto
  from execution_keeps_error [OF e2, of e ?w2] obtain s3 where
    g2: "graph_step e Execution ?w2 s2 = (fst (execution_node e ?w2 s2), Inr (Some Validation, s3))"
      and e3: "truthy_str (error_message s3)" "current_instructions s3 \<noteq> None"
    by blast
  let ?w3 = "fst (execution_node e ?w2 s2)"
  from validation_ends_on_error [OF e3, of e ?w3] obtain s4 where
    g3: "graph_step e Validation ?w3 s3 = (?w3, Inr (Some Response, s4))"
      and e4: "truthy_str (error_message s4)"
    by blast
  from response_on_error [OF e4, of e ?w3] obtain final where
    g4: "graph_step e Response ?w3 s4 = (?w3, Inr (None, final))"
      and e5: "is_complete final" "truthy_str (error_message final)"
    by blast
  have r: "run e (Suc (Suc (Suc (Suc (Suc k))))) Screenshot w s = (?w3, Inr final)"
    by (simp only: run_continue [OF g0] run_continue [OF g1] run_continue [OF g2]
          run_continue [OF g3] run_end [OF g4])
  from g0 nc g1 g2 r e5 show ?thesis by auto
qed

theorem screenshot_failure_ends_at_next_validation_witness:
  "\<exists>w3 final. run flaky_env 5 Screenshot before_capture_world before_capture = (w3, Inr final)
     \<and> is_complete final \<and> truthy_str (error_message final)"
proof -
  let ?w1 = "before_capture_world\<lparr>trace := trace before_capture_world @ [TimeSleep (VFloat 1)]\<rparr>"
  have a: "invoke flaky_env before_capture_world (create_pyautogui_tools ! 4) [] =
             (?w1, Inl (Exn ''OSError'' ''boom''))"
     "current_instructions before_capture \<noteq> None" "step_count before_capture \<noteq> 0"
     "\<not> is_complete before_capture"
    by (simp_all add: create_pyautogui_tools_def sleep_tool_def call_def flaky_env_def quiet_env_def
        before_capture_def before_capture_world_def world0_def initial_state_def)
  have five: "(5::nat) = Suc (Suc (Suc (Suc (Suc 0))))" by simp
  show ?thesis
    unfolding five
    using screenshot_failure_ends_at_next_validation [OF a, of 0] by blast
qed

text \<open>A reachable state with the error set and \<^verbatim>\<open>is_complete\<close> false: the run of
  \<open>flaky_env\<close> after four node executions. The trace of the whole run shows the
  \<^verbatim>\<open>write\<close> of the next plan dispatched after the failed capture.\<close>

theorem screenshot_failure_counterexample:
  "after_steps flaky_env 3 Planning world0 (initial_state flaky_env ''go'' 3)
      = Some (Screenshot, before_capture_world, before_capture)
   \<and> after_steps flaky_env 4 Planning world0 (initial_state flaky_env ''go'' 3)
      = Some (Planning, before_capture_world\<lparr>trace := trace before_capture_world @ [TimeSleep (VFloat 1)]\<rparr>,
              before_capture\<lparr>error_message := Some ''Screenshot failed: boom''\<rparr>)
   \<and> is_complete (before_capture\<lparr>error_message := Some ''Screenshot failed: boom''\<rparr>) = False
   \<and> trace (fst (execute_request flaky_env 25 world0 ''go'' 3)) =
       [TimeSleep (VFloat 1), PyAutoGUI ''write'' [VStr ''hi''] [(''interval'', VFloat (1 / 20))],
        TimeSleep (VFloat 1), PyAutoGUI ''write'' [VStr ''hi''] [(''interval'', VFloat (1 / 20))]]"
  by (simp add: graph_defs run_numeral after_steps_numeral node_defs quiet_defs flaky_env_def
      write_hi_def before_capture_def before_capture_world_def Let_def)

end
